theory Spec2Isabelle
  imports Complex_Main "HOL-Library.Word" "HOL-Library.Multiset"
begin

unbundle bit_operations_syntax

section \<open>BioQ quiz-session engine (src/pages/Quiz.tsx)\<close>

subsection \<open>Strings and arrays of the host language\<close>

text \<open>
  A JavaScript string is a sequence of UTF-16 code units; \<open>str.charCodeAt(i)\<close> reads the
  i-th unit, a value below 65536.  String literals of the source are ASCII and are written
  with \<open>lit\<close>.
\<close>

type_synonym js_string = "16 word list"

definition lit :: "string \<Rightarrow> js_string" where
  "lit s = map of_char s"

text \<open>
  A JavaScript array may have holes and may hold \<open>undefined\<close>; both are \<open>None\<close> here.
  Reading past the end yields \<open>undefined\<close>; writing past the end extends the array and
  leaves holes in between.
\<close>

type_synonym 'a js_array = "'a option list"

definition js_get :: "'a js_array \<Rightarrow> nat \<Rightarrow> 'a option" where
  "js_get xs i = (if i < length xs then xs ! i else None)"

definition js_set :: "'a js_array \<Rightarrow> nat \<Rightarrow> 'a \<Rightarrow> 'a js_array" where
  "js_set xs i v =
     (if i < length xs then xs[i := Some v]
      else xs @ replicate (i - length xs) None @ [Some v])"

subsection \<open>Deterministic PRNG and shuffle (Quiz.tsx, lines 35--58)\<close>

text \<open>
  \<open>hash\<close>: \<open>h\<close> starts at \<open>2166136261 >>> 0\<close>; each round does \<open>h ^= str.charCodeAt(i)\<close>
  (a 32-bit XOR) and \<open>h = Math.imul(h, 16777619)\<close> (the low 32 bits of the product);
  the result is \<open>h >>> 0\<close>, the unsigned reading.  A \<open>32 word\<close> carries exactly these bits.
\<close>

definition hash_round :: "32 word \<Rightarrow> 16 word \<Rightarrow> 32 word" where
  "hash_round h c = (h XOR ucast c) * 16777619"

definition hash :: "js_string \<Rightarrow> 32 word" where
  "hash str = foldl hash_round 2166136261 str"

text \<open>
  \<open>prng(seed)\<close> closes over \<open>a = seed >>> 0\<close>.  Each call of the closure runs
  \<open>a = (a * 1664525 + 1013904223) >>> 0\<close> and returns \<open>a / 0x100000000\<close>.  The product
  and the sum are computed on doubles; with \<open>a < 2^32\<close> both stay below \<open>2^53\<close>
  (lemma \<open>prng_next_exact\<close>), so they are the exact integers and \<open>>>> 0\<close> reduces them
  modulo \<open>2^32\<close>.  The quotient by \<open>2^32\<close> is exact on doubles as well; it is a rational here.
  The closure's state is threaded explicitly.
\<close>

definition prng :: "32 word \<Rightarrow> nat" where
  "prng seed = unat seed"

definition prng_next :: "nat \<Rightarrow> nat" where
  "prng_next a = (a * 1664525 + 1013904223) mod 2 ^ 32"

definition rnd :: "nat \<Rightarrow> rat \<times> nat" where
  "rnd a = (let a' = prng_next a in (of_nat a' / 4294967296, a'))"

text \<open>
  \<open>seededShuffle(arr, seedStr)\<close>: \<open>copy = arr.slice()\<close>, then for \<open>i\<close> from
  \<open>copy.length - 1\<close> down to \<open>1\<close>: \<open>j = Math.floor(rnd() * (i + 1))\<close> and the elements at
  \<open>i\<close> and \<open>j\<close> are exchanged.  The state of the loop holds the caller's array \<open>arr\<close>, the
  local \<open>copy\<close> and the generator state \<open>gen\<close>.  The product \<open>rnd() * (i + 1)\<close> is exact on
  doubles for arrays of fewer than \<open>2^21\<close> elements, which the real arithmetic below relies on.
\<close>

record 'a shuffle_state =
  arr :: "'a list"
  copy :: "'a list"
  gen :: nat

definition shuffle_body :: "nat \<Rightarrow> 'a shuffle_state \<Rightarrow> 'a shuffle_state" where
  "shuffle_body i st =
     (let (r, a') = rnd (gen st);
          j = nat \<lfloor>r * of_nat (i + 1)\<rfloor>;
          c = copy st
      in st\<lparr>copy := c[i := c ! j, j := c ! i], gen := a'\<rparr>)"

fun shuffle_loop :: "nat \<Rightarrow> 'a shuffle_state \<Rightarrow> 'a shuffle_state" where
  "shuffle_loop 0 st = st"
| "shuffle_loop (Suc k) st = shuffle_loop k (shuffle_body (Suc k) st)"

definition seededShuffle_run :: "'a list \<Rightarrow> js_string \<Rightarrow> 'a shuffle_state" where
  "seededShuffle_run xs seedStr =
     shuffle_loop (length xs - 1) \<lparr>arr = xs, copy = xs, gen = prng (hash seedStr)\<rparr>"

definition seededShuffle :: "'a list \<Rightarrow> js_string \<Rightarrow> 'a list" where
  "seededShuffle xs seedStr = copy (seededShuffle_run xs seedStr)"

text \<open>
  The generator of section 4.1 in the specification's words: FNV-1a on natural numbers
  with the reduction modulo \<open>2^32\<close> written out.
\<close>

definition fnv1a_spec :: "nat list \<Rightarrow> nat" where
  "fnv1a_spec cs = foldl (\<lambda>h c. ((h XOR c) * 16777619) mod 2 ^ 32) 2166136261 cs"

subsection \<open>Data model (Quiz.tsx, lines 8--30)\<close>

datatype difficulty = Easy | Medium | Hard

text \<open>The field \<open>id\<close> of a question is \<open>qid\<close> here, the name \<open>id\<close> being taken.\<close>

record question =
  qid :: js_string
  category :: js_string
  difficulty :: difficulty
  prompt :: js_string
  options :: "js_string list"
  correctIndex :: nat
  explanation :: "js_string option"

datatype status = Unanswered | Correct | Wrong | Penalized

text \<open>
  The per-question budget \<open>total\<close> (seconds) and all times (milliseconds) are finite
  numbers of the host language and rationals here; the question count \<open>n\<close> and the indices
  are natural numbers.  What the parameter parsing does with a value that is not a number is
  the subject of \<open>n_of\<close> and \<open>total_of\<close> below.
\<close>

record WeeklySession =
  date :: js_string
  weekId :: js_string
  qIds :: "js_string list"
  qIndex :: nat
  statuses :: "status js_array"
  timesMs :: "rat js_array"
  score :: int
  seed :: js_string
  tPerQ :: rat

subsection \<open>Question selector (Quiz.tsx, lines 183--222)\<close>

text \<open>
  \<open>Math.round\<close> rounds to the nearest integer, halves upwards.  \<open>Math.round(target * 0.8)\<close>
  is taken on the exact product: \<open>target * 4 / 5\<close> is a multiple of \<open>1/5\<close>, and the error of
  the double product is far smaller than the distance \<open>1/10\<close> to the nearest half.
\<close>

definition Math_round :: "rat \<Rightarrow> int" where
  "Math_round x = \<lfloor>x + 1 / 2\<rfloor>"

definition needHard_of :: "nat \<Rightarrow> nat" where
  "needHard_of target = nat (Math_round (of_nat target * (8 / 10)))"

definition weekly_picks :: "question list \<Rightarrow> nat \<Rightarrow> js_string \<Rightarrow> question list" where
  "weekly_picks bank n dateKey =
     (let target = min n (length bank);
          hardAll = filter (\<lambda>q. difficulty q = Hard) bank;
          medAll = filter (\<lambda>q. difficulty q = Medium) bank;
          others = filter (\<lambda>q. difficulty q \<noteq> Hard \<and> difficulty q \<noteq> Medium) bank;
          needHard = needHard_of target;
          needMed = target - needHard;
          hardPick = take needHard (seededShuffle hardAll (lit ''WEEKLY-HARD-'' @ dateKey));
          medPick = take needMed (seededShuffle medAll (lit ''WEEKLY-MED-'' @ dateKey));
          picks = hardPick @ medPick
      in if length picks < target
         then (let taken = set (map qid picks);
                   pool = filter (\<lambda>q. qid q \<notin> taken)
                     (seededShuffle hardAll (lit ''WEEKLY-HARD-FILL-'' @ dateKey) @
                      seededShuffle medAll (lit ''WEEKLY-MED-FILL-'' @ dateKey) @
                      seededShuffle others (lit ''WEEKLY-REST-'' @ dateKey))
               in picks @ take (target - length picks) pool)
         else picks)"

definition weekly_pick :: "question list \<Rightarrow> nat \<Rightarrow> js_string \<Rightarrow> question list" where
  "weekly_pick bank n dateKey =
     seededShuffle (weekly_picks bank n dateKey) (lit ''WEEKLY-FINAL-'' @ dateKey)"

text \<open>
  The resume path rebuilds the list from the saved ids: \<open>new Map(bank.map(q => [q.id, q]))\<close>
  keeps the last question of each id, and ids the bank does not have are dropped.
\<close>

definition byId :: "question list \<Rightarrow> js_string \<Rightarrow> question option" where
  "byId bank = map_of (rev (map (\<lambda>q. (qid q, q)) bank))"

definition rebuild :: "question list \<Rightarrow> js_string list \<Rightarrow> question list" where
  "rebuild bank ids = List.map_filter (byId bank) ids"

definition diff_name :: "difficulty \<Rightarrow> js_string" where
  "diff_name d = (case d of Easy \<Rightarrow> lit ''easy'' | Medium \<Rightarrow> lit ''medium'' | Hard \<Rightarrow> lit ''hard'')"

definition normal_pick ::
  "question list \<Rightarrow> js_string \<Rightarrow> js_string \<Rightarrow> nat \<Rightarrow> js_string \<Rightarrow> question list" where
  "normal_pick bank cat diff n normalSeed =
     (let f1 = (if cat \<noteq> [] then filter (\<lambda>q. category q = cat) bank else bank);
          f2 = (if diff \<noteq> [] then filter (\<lambda>q. diff_name (difficulty q) = diff) f1 else f1)
      in take (min n (length f2)) (seededShuffle f2 normalSeed))"

subsection \<open>Session store and component state\<close>

text \<open>
  What \<open>localStorage.getItem(sessionKey())\<close> and \<open>JSON.parse\<close> make of the stored item:
  no item, the empty string, a reading that throws, text that \<open>JSON.parse\<close> rejects, or a
  parsed value.  \<open>readSessionSafe\<close> (lines 444--450) returns \<open>null\<close> in every case but the last
  and hands the parsed value on as it is.
\<close>

datatype 'a raw_item = NoItem | EmptyItem | Unreadable | BadJson | Parsed 'a

definition readSessionSafe :: "'a raw_item \<Rightarrow> 'a option" where
  "readSessionSafe raw = (case raw of Parsed v \<Rightarrow> Some v | _ \<Rightarrow> None)"

text \<open>
  The state of the component: the URL parameters, the \<open>useState\<close> cells, the one-shot
  \<open>expiredRef\<close>, and the environment it talks to (the stored session item, whether
  \<open>setItem\<close> succeeds, the "played today" marker, \<open>localDateKey()\<close> and \<open>weekIdFor()\<close>).
  Cells whose names are also fields of \<open>WeeklySession\<close> carry the suffix \<open>_st\<close>; \<open>n\<close> and
  \<open>total\<close> are \<open>n_q\<close> and \<open>total_s\<close>.  An event handler is a function from the committed
  state to the next committed state; the mirrors \<open>qIndexRef\<close>, \<open>statusesRef\<close>, ... hold the
  committed values and are read from the state the handler starts in.
\<close>

record quiz =
  isWeekly :: bool
  n_q :: nat
  total_s :: rat
  cat_param :: js_string
  diff_param :: js_string
  normalSeed :: js_string
  bank :: "question list option"
  resume :: "WeeklySession option"
  qIndex_st :: nat
  running :: bool
  selected :: "nat option"
  locked :: bool
  lockedFor :: "nat option"
  score_st :: int
  finished :: bool
  timesMs_st :: "rat js_array"
  statuses_st :: "status js_array"
  startedAt :: rat
  nowTs :: rat
  expiredRef :: bool
  saving :: bool
  saved :: bool
  saveError :: "js_string option"
  storage :: "WeeklySession raw_item"
  writable :: bool
  played :: bool
  today :: js_string
  thisWeek :: js_string

text \<open>The \<open>questions\<close> memo (lines 183--222).\<close>

definition questions :: "quiz \<Rightarrow> question list" where
  "questions c =
     (case bank c of
        None \<Rightarrow> []
      | Some b \<Rightarrow>
          if isWeekly c then
            (case resume c of
               Some r \<Rightarrow> if qIds r \<noteq> [] then rebuild b (qIds r)
                         else weekly_pick b (n_q c) (today c)
             | None \<Rightarrow> weekly_pick b (n_q c) (today c))
          else normal_pick b (cat_param c) (diff_param c) (n_q c) (normalSeed c))"

definition current_q :: "quiz \<Rightarrow> question option" where
  "current_q c =
     (if qIndex_st c < length (questions c) then Some (questions c ! qIndex_st c) else None)"

text \<open>\<open>try { localStorage.setItem(sessionKey(), JSON.stringify(s)) } catch {}\<close>\<close>

definition setItem :: "quiz \<Rightarrow> WeeklySession \<Rightarrow> quiz" where
  "setItem c s = (if writable c then c\<lparr>storage := Parsed s\<rparr> else c)"

text \<open>
  The effect that loads an in-progress session (lines 167--180): what it does to the store
  at once, and the \<open>resume\<close> it hands to \<open>setResume\<close>.  The new \<open>resume\<close> is a queued state
  update: the component sees it from the next render on, and the effects that run after
  this one in the same commit still see the \<open>resume\<close> of their own render.  \<open>mount\<close> below
  puts the two renders in order.
\<close>

definition load_resume :: "quiz \<Rightarrow> quiz" where
  "load_resume c =
     (if \<not> isWeekly c \<or> bank c = None then c
      else case readSessionSafe (storage c) of
             None \<Rightarrow> c\<lparr>resume := None\<rparr>
           | Some s \<Rightarrow>
               if date s \<noteq> today c \<or> weekId s \<noteq> thisWeek c
               then c\<lparr>storage := NoItem, resume := None\<rparr>
               else c\<lparr>resume := Some s\<rparr>)"

text \<open>
  The timer effect starts by clearing the one-shot guard (line 352); the per-question reset
  (lines 340--348) runs whenever the index changes.
\<close>

definition timer_effect :: "quiz \<Rightarrow> quiz" where
  "timer_effect c = c\<lparr>expiredRef := False\<rparr>"

definition question_reset :: "rat \<Rightarrow> quiz \<Rightarrow> quiz" where
  "question_reset now c =
     timer_effect (c\<lparr>running := True, selected := None, locked := False, lockedFor := None,
                     startedAt := now, nowTs := now\<rparr>)"

text \<open>The record a handler falls back to when nothing is stored (lines 460--470).\<close>

definition snapshot_default :: "quiz \<Rightarrow> WeeklySession" where
  "snapshot_default c =
     \<lparr>date = today c, weekId = thisWeek c, qIds = map qid (questions c),
      qIndex = qIndex_st c, statuses = statuses_st c, timesMs = timesMs_st c,
      score = score_st c, seed = lit ''WEEKLY-'' @ today c, tPerQ = total_s c\<rparr>"

record snapshot_opts =
  o_qIndex :: "nat option"
  o_timesMs :: "(nat \<times> rat) list option"
  o_statuses :: "(nat \<times> status) list option"
  o_scoreDelta :: "int option"

definition no_opts :: snapshot_opts where
  "no_opts = \<lparr>o_qIndex = None, o_timesMs = None, o_statuses = None, o_scoreDelta = None\<rparr>"

definition assign_all :: "'a js_array \<Rightarrow> (nat \<times> 'a) list \<Rightarrow> 'a js_array" where
  "assign_all xs kvs = foldl (\<lambda>a kv. js_set a (fst kv) (snd kv)) xs kvs"

definition merge_opts :: "snapshot_opts \<Rightarrow> WeeklySession \<Rightarrow> WeeklySession" where
  "merge_opts opts s =
     (let s1 = (case o_qIndex opts of Some k \<Rightarrow> s\<lparr>qIndex := k\<rparr> | None \<Rightarrow> s);
          s2 = (case o_scoreDelta opts of
                  Some d \<Rightarrow> if d \<noteq> 0 then s1\<lparr>score := score s1 + d\<rparr> else s1
                | None \<Rightarrow> s1);
          s3 = (case o_timesMs opts of
                  Some kvs \<Rightarrow> s2\<lparr>timesMs := assign_all (timesMs s2) kvs\<rparr>
                | None \<Rightarrow> s2)
      in (case o_statuses opts of
            Some kvs \<Rightarrow> s3\<lparr>statuses := assign_all (statuses s3) kvs\<rparr>
          | None \<Rightarrow> s3))"

definition saveWeeklySnapshot :: "snapshot_opts \<Rightarrow> quiz \<Rightarrow> quiz" where
  "saveWeeklySnapshot opts c =
     (if \<not> isWeekly c then c
      else setItem c (merge_opts opts
             (case readSessionSafe (storage c) of Some s \<Rightarrow> s | None \<Rightarrow> snapshot_default c)))"

subsection \<open>Session state machine\<close>

text \<open>Initialise a run or resume one (lines 287--337).\<close>

definition fresh_session :: "quiz \<Rightarrow> WeeklySession" where
  "fresh_session c =
     \<lparr>date = today c, weekId = thisWeek c, qIds = map qid (questions c), qIndex = 0,
      statuses = replicate (length (questions c)) (Some Unanswered),
      timesMs = replicate (length (questions c)) (Some 0),
      score = 0, seed = lit ''WEEKLY-'' @ today c, tPerQ = total_s c\<rparr>"

definition resume_run :: "rat \<Rightarrow> WeeklySession \<Rightarrow> quiz \<Rightarrow> quiz" where
  "resume_run now r c =
     timer_effect (c\<lparr>qIndex_st := min (qIndex r) (length (questions c) - 1),
                     timesMs_st := take (length (questions c)) (timesMs r),
                     statuses_st := take (length (questions c)) (statuses r),
                     score_st := score r,
                     running := True, selected := None, locked := False, lockedFor := None,
                     finished := False, startedAt := now, nowTs := now\<rparr>)"

definition fresh_run :: "rat \<Rightarrow> quiz \<Rightarrow> quiz" where
  "fresh_run now c =
     (let c1 = timer_effect
                 (c\<lparr>qIndex_st := 0, running := True, selected := None, locked := False,
                     lockedFor := None, score_st := 0, finished := False,
                     timesMs_st := replicate (length (questions c)) (Some 0),
                     statuses_st := replicate (length (questions c)) (Some Unanswered),
                     startedAt := now, nowTs := now\<rparr>)
      in if isWeekly c then c1\<lparr>storage := storage (setItem c (fresh_session c))\<rparr> else c1)"

definition init_effect :: "rat \<Rightarrow> quiz \<Rightarrow> quiz" where
  "init_effect now c =
     (if questions c = [] then c
      else case (if isWeekly c then resume c else None) of
             Some r \<Rightarrow> if length (qIds r) = length (questions c) then resume_run now r c
                       else fresh_run now c
           | None \<Rightarrow> fresh_run now c)"

text \<open>
  The two commits that follow the arrival of the bank; \<open>c\<close> is the state of the render in
  which \<open>bank\<close> is first set.  In the first commit the loading effect reads the store and
  queues the new \<open>resume\<close>; the initialising effect of the same commit runs at clock reading
  \<open>now\<close> on the questions and the \<open>resume\<close> of that render, after the loading effect has
  touched the store, and in weekly mode its fresh branch stores a new record.  The queued
  \<open>resume\<close> arrives with the next render.  Unless it is \<open>null\<close> as before, the \<open>questions\<close>
  memo is computed anew (a parsed record is a new object) and the initialising effect runs
  again, at clock reading \<open>now'\<close>.
\<close>

definition mount :: "rat \<Rightarrow> rat \<Rightarrow> quiz \<Rightarrow> quiz" where
  "mount now now' c =
     (let loaded = load_resume c;
          a = init_effect now (loaded\<lparr>resume := resume c\<rparr>);
          b = a\<lparr>resume := resume loaded\<rparr>
      in if isWeekly c \<and> bank c \<noteq> None \<and> (resume c \<noteq> None \<or> resume loaded \<noteq> None)
         then init_effect now' b else b)"

text \<open>
  The body of the animation-frame callback \<open>loop\<close> (lines 356--381).  The snapshot of the
  time-up branch is written from inside the \<open>setStatuses\<close> updater.
\<close>

definition endsAt :: "quiz \<Rightarrow> rat" where
  "endsAt c = startedAt c + total_s c * 1000"

definition expires :: "rat \<Rightarrow> quiz \<Rightarrow> bool" where
  "expires t c = (\<not> expiredRef c \<and> endsAt c \<le> t)"

definition timer_loop :: "rat \<Rightarrow> quiz \<Rightarrow> quiz" where
  "timer_loop t c =
     (if expires t c then
        (let i = qIndex_st c;
             p = saveWeeklySnapshot
                   (no_opts\<lparr>o_timesMs := Some [(i, total_s c * 1000)],
                            o_statuses := Some [(i, Wrong)]\<rparr>) c
         in c\<lparr>nowTs := t, expiredRef := True, running := False, locked := True,
              lockedFor := Some i,
              timesMs_st := js_set (timesMs_st c) i (total_s c * 1000),
              statuses_st := (if js_get (statuses_st c) i = Some Unanswered
                              then js_set (statuses_st c) i Wrong else statuses_st c),
              storage := storage p\<rparr>)
      else c\<lparr>nowTs := t\<rparr>)"

text \<open>
  One animation frame at clock reading \<open>t\<close>.  The callback is scheduled only while the
  effect is live (\<open>running\<close> and not \<open>locked\<close>, line 353); after it has fired the effect is
  re-run for the new \<open>running\<close> and \<open>locked\<close>, which clears the guard and schedules nothing.
\<close>

definition timer_frame :: "rat \<Rightarrow> quiz \<Rightarrow> quiz" where
  "timer_frame t c =
     (if running c \<and> \<not> locked c
      then (if expires t c then timer_effect (timer_loop t c) else timer_loop t c)
      else c)"

text \<open>The frames of a list of clock readings, with the number of times the time-up branch ran.\<close>

fun run_frames :: "rat list \<Rightarrow> quiz \<Rightarrow> quiz \<times> nat" where
  "run_frames [] c = (c, 0)"
| "run_frames (t # ts) c =
     (let fired = (running c \<and> \<not> locked c \<and> expires t c);
          (c', k) = run_frames ts (timer_frame t c)
      in (c', (if fired then Suc k else k)))"

text \<open>\<open>choose(idx)\<close> at clock reading \<open>now\<close> (lines 387--423).\<close>

definition choose_opt :: "nat \<Rightarrow> rat \<Rightarrow> quiz \<Rightarrow> quiz" where
  "choose_opt idx now c =
     (case current_q c of
        None \<Rightarrow> c
      | Some q \<Rightarrow>
          if locked c then c
          else
            (let i = qIndex_st c;
                 used = min (total_s c * 1000) (now - startedAt c);
                 correct = (idx = correctIndex q);
                 p = (if correct
                      then saveWeeklySnapshot
                             \<lparr>o_qIndex = None, o_timesMs = Some [(i, used)],
                              o_statuses = Some [(i, Correct)], o_scoreDelta = Some 1\<rparr> c
                      else saveWeeklySnapshot
                             \<lparr>o_qIndex = None, o_timesMs = Some [(i, used)],
                              o_statuses = Some [(i, Wrong)], o_scoreDelta = None\<rparr> c)
             in timer_effect
                  (c\<lparr>selected := Some idx, locked := True, lockedFor := Some i,
                      running := False,
                      timesMs_st := js_set (timesMs_st c) i used,
                      statuses_st := js_set (statuses_st c) i (if correct then Correct else Wrong),
                      score_st := (if correct then score_st c + 1 else score_st c),
                      storage := storage p\<rparr>)))"

text \<open>\<open>next()\<close> (lines 425--437); \<open>questions.length - 1\<close> is \<open>-1\<close> for an empty list.\<close>

definition next_q :: "rat \<Rightarrow> quiz \<Rightarrow> quiz" where
  "next_q now c =
     (if int (qIndex_st c) < int (length (questions c)) - 1
      then (let ni = qIndex_st c + 1;
                p = saveWeeklySnapshot (no_opts\<lparr>o_qIndex := Some ni\<rparr>) c
            in question_reset now (c\<lparr>qIndex_st := ni, storage := storage p\<rparr>))
      else timer_effect (c\<lparr>finished := True, running := False\<rparr>))"

text \<open>\<open>finalizeOnLeave\<close> (lines 488--530), run on page hide, unload and unmount.\<close>

definition leave_default :: "quiz \<Rightarrow> WeeklySession" where
  "leave_default c =
     \<lparr>date = today c, weekId = thisWeek c, qIds = map qid (questions c),
      qIndex = qIndex_st c,
      statuses = replicate (length (questions c)) (Some Unanswered),
      timesMs = replicate (length (questions c)) (Some 0),
      score = score_st c, seed = lit ''WEEKLY-'' @ today c, tPerQ = total_s c\<rparr>"

definition finalizeOnLeave :: "quiz \<Rightarrow> quiz" where
  "finalizeOnLeave c =
     (if \<not> isWeekly c then c
      else if finished c then c
      else
        (let i = qIndex_st c;
             len = length (questions c);
             isMid = (running c \<and> \<not> locked c \<and> i < len);
             tPerQ' = total_s c
         in if isMid then
              (let sess = (case readSessionSafe (storage c) of
                             Some s \<Rightarrow> s
                           | None \<Rightarrow> leave_default c);
                   nextI = min (i + 1) ((if len = 0 then 1 else len) - 1)
               in setItem c
                    (sess\<lparr>qIndex := nextI,
                          statuses := js_set (statuses sess) i Penalized,
                          timesMs := js_set (timesMs sess) i (tPerQ' * 1000)\<rparr>))
            else saveWeeklySnapshot no_opts c))"

subsection \<open>Saving the attempt (Quiz.tsx, lines 548--604 and 717--728)\<close>

text \<open>
  What \<open>supabase.from("weekly_attempts").insert(...)\<close> comes back with: no error, an error
  object with its \<open>code\<close> and \<open>message\<close> (either may be missing), or an exception whose
  \<open>message\<close> may be missing.
\<close>

datatype insert_outcome =
    Inserted
  | Rejected "js_string option" "js_string option"
  | Thrown "js_string option"

text \<open>
  \<open>/one_per_day/i.test(msg)\<close>: the pattern occurs somewhere in \<open>msg\<close>, letters compared
  without case.  The pattern is ASCII, and without the \<open>u\<close> flag no character outside ASCII
  is folded onto an ASCII letter, so folding the ASCII letters is all there is to it.
\<close>

definition fold_case :: "16 word \<Rightarrow> 16 word" where
  "fold_case ch = (if 97 \<le> ch \<and> ch \<le> 122 then ch - 32 else ch)"

definition matches_at :: "js_string \<Rightarrow> js_string \<Rightarrow> bool" where
  "matches_at pat str = (map fold_case pat = map fold_case (take (length pat) str))"

fun regex_test :: "js_string \<Rightarrow> js_string \<Rightarrow> bool" where
  "regex_test pat [] = matches_at pat []"
| "regex_test pat (ch # str) = (matches_at pat (ch # str) \<or> regex_test pat str)"

definition is_duplicate :: "js_string option \<Rightarrow> js_string option \<Rightarrow> bool" where
  "is_duplicate code msg =
     (code = Some (lit ''23505'') \<or>
      (case msg of Some m \<Rightarrow> regex_test (lit ''one_per_day'') m | None \<Rightarrow> False))"

text \<open>\<open>e?.message ?? "Save failed"\<close>: only a missing message is replaced.\<close>

definition message_or_default :: "js_string option \<Rightarrow> js_string" where
  "message_or_default msg = (case msg of Some m \<Rightarrow> m | None \<Rightarrow> lit ''Save failed'')"

definition saveWeeklyAttempt :: "insert_outcome \<Rightarrow> quiz \<Rightarrow> quiz" where
  "saveWeeklyAttempt outcome c =
     (if \<not> isWeekly c \<or> saving c \<or> saved c then c
      else case outcome of
             Inserted \<Rightarrow> c\<lparr>saving := False, saved := True, saveError := None\<rparr>
           | Rejected code msg \<Rightarrow>
               if is_duplicate code msg
               then c\<lparr>saving := False, saved := True, saveError := None\<rparr>
               else c\<lparr>saving := False, saveError := Some (message_or_default msg)\<rparr>
           | Thrown msg \<Rightarrow> c\<lparr>saving := False, saveError := Some (message_or_default msg)\<rparr>)"

text \<open>The effect on \<open>finished\<close> (lines 548--577).\<close>

definition finish_effect :: "insert_outcome \<Rightarrow> quiz \<Rightarrow> quiz" where
  "finish_effect outcome c =
     (if \<not> finished c then c
      else if isWeekly c
      then saveWeeklyAttempt outcome (c\<lparr>storage := NoItem, played := (played c \<or> writable c)\<rparr>)
      else c)"

text \<open>
  The finish screen (lines 717--728): \<open>{!saving && saved && ...}\<close> shows "Saved", and
  \<open>{!saving && saveError && ...}\<close> shows the message with the Retry button.  A string is
  truthy when it is not empty.
\<close>

definition truthy :: "js_string option \<Rightarrow> bool" where
  "truthy v = (case v of Some str \<Rightarrow> str \<noteq> [] | None \<Rightarrow> False)"

definition shows_saved :: "quiz \<Rightarrow> bool" where
  "shows_saved c = (isWeekly c \<and> \<not> saving c \<and> saved c)"

definition shows_retry :: "quiz \<Rightarrow> bool" where
  "shows_retry c = (isWeekly c \<and> \<not> saving c \<and> truthy (saveError c))"

subsection \<open>Stored values that are not sessions\<close>

text \<open>
  \<open>JSON.parse(raw) as WeeklySession\<close> checks nothing: any JSON value comes back.  The
  values and the property reads the component makes on them: reading a property of \<open>null\<close>
  or \<open>undefined\<close> throws a \<open>TypeError\<close>; a property an object does not have is \<open>undefined\<close>
  (\<open>None\<close>); of a repeated key \<open>JSON.parse\<close> keeps the last; arrays and strings have a
  \<open>length\<close>.
\<close>

datatype json =
    JNull
  | JBool bool
  | JNum rat
  | JStr js_string
  | JArr "json list"
  | JObj "(js_string \<times> json) list"

datatype js_error = TypeError

definition js_prop :: "json option \<Rightarrow> js_string \<Rightarrow> js_error + json option" where
  "js_prop v key =
     (case v of
        None \<Rightarrow> Inl TypeError
      | Some JNull \<Rightarrow> Inl TypeError
      | Some (JObj kvs) \<Rightarrow> Inr (map_of (rev kvs) key)
      | Some (JArr xs) \<Rightarrow>
          Inr (if key = lit ''length'' then Some (JNum (of_nat (length xs))) else None)
      | Some (JStr str) \<Rightarrow>
          Inr (if key = lit ''length'' then Some (JNum (of_nat (length str))) else None)
      | Some _ \<Rightarrow> Inr None)"

text \<open>The type \<open>WeeklySession\<close> (lines 18--30) as a check on a JSON value.\<close>

definition is_string :: "json option \<Rightarrow> bool" where
  "is_string v = (case v of Some (JStr _) \<Rightarrow> True | _ \<Rightarrow> False)"

definition is_number :: "json option \<Rightarrow> bool" where
  "is_number v = (case v of Some (JNum _) \<Rightarrow> True | _ \<Rightarrow> False)"

definition is_status :: "json \<Rightarrow> bool" where
  "is_status v = (v \<in> set (map JStr [lit ''unanswered'', lit ''correct'', lit ''wrong'', lit ''penalized'']))"

definition is_array_of :: "(json \<Rightarrow> bool) \<Rightarrow> json option \<Rightarrow> bool" where
  "is_array_of P v = (case v of Some (JArr xs) \<Rightarrow> list_all P xs | _ \<Rightarrow> False)"

definition is_WeeklySession :: "json \<Rightarrow> bool" where
  "is_WeeklySession v =
     (case v of
        JObj kvs \<Rightarrow>
          (let f = map_of (rev kvs)
           in is_string (f (lit ''date'')) \<and> is_string (f (lit ''weekId'')) \<and>
              is_array_of (\<lambda>x. is_string (Some x)) (f (lit ''qIds'')) \<and>
              is_number (f (lit ''qIndex'')) \<and>
              is_array_of is_status (f (lit ''statuses'')) \<and>
              is_array_of (\<lambda>x. is_number (Some x)) (f (lit ''timesMs'')) \<and>
              is_number (f (lit ''score'')) \<and> is_string (f (lit ''seed'')) \<and>
              is_number (f (lit ''tPerQ'')))
      | _ \<Rightarrow> False)"

text \<open>
  The loading effect (lines 167--180) on a stored value of any shape: the new \<open>resume\<close> and
  whether the item was removed.  A \<open>TypeError\<close> of \<open>s.date\<close> is caught by the effect's
  \<open>catch\<close>.
\<close>

definition load_resume_json ::
  "js_string \<Rightarrow> js_string \<Rightarrow> json raw_item \<Rightarrow> json option \<times> bool" where
  "load_resume_json dateKey week raw =
     (case raw of
        Parsed v \<Rightarrow>
          (case js_prop (Some v) (lit ''date'') of
             Inl e \<Rightarrow> (None, False)
           | Inr d \<Rightarrow>
               if d \<noteq> Some (JStr dateKey) then (None, True)
               else (case js_prop (Some v) (lit ''weekId'') of
                       Inl e \<Rightarrow> (None, False)
                     | Inr w \<Rightarrow> if w \<noteq> Some (JStr week) then (None, True)
                               else (Some v, False)))
      | _ \<Rightarrow> (None, False))"

text \<open>
  The test of the initialising effect (line 290),
  \<open>isWeekly && resume && resume.qIds.length === questions.length\<close>, on such a value;
  nothing catches a \<open>TypeError\<close> here.
\<close>

datatype init_kind = Resume | Fresh

definition js_truthy :: "json \<Rightarrow> bool" where
  "js_truthy v = (case v of JNull \<Rightarrow> False | JBool b \<Rightarrow> b | JNum x \<Rightarrow> x \<noteq> 0
                  | JStr str \<Rightarrow> str \<noteq> [] | _ \<Rightarrow> True)"

definition init_branch :: "bool \<Rightarrow> json option \<Rightarrow> nat \<Rightarrow> js_error + init_kind" where
  "init_branch weekly res qlen =
     (if \<not> weekly then Inr Fresh
      else case res of
             None \<Rightarrow> Inr Fresh
           | Some v \<Rightarrow>
               if \<not> js_truthy v then Inr Fresh
               else (case js_prop (Some v) (lit ''qIds'') of
                       Inl e \<Rightarrow> Inl e
                     | Inr ids \<Rightarrow>
                         (case js_prop ids (lit ''length'') of
                            Inl e \<Rightarrow> Inl e
                          | Inr len \<Rightarrow>
                              Inr (if len = Some (JNum (of_nat qlen)) then Resume else Fresh))))"

subsection \<open>Parameter parsing (Quiz.tsx, lines 140--141)\<close>

text \<open>
  The numbers of the host language as far as \<open>Math.max\<close> and \<open>Math.min\<close> tell them apart:
  \<open>NaN\<close>, the two infinities and the finite values.  Both functions return \<open>NaN\<close> as soon as
  one argument is \<open>NaN\<close>.
\<close>

datatype js_number = NaN | NegInf | Fin rat | PosInf

definition Math_max :: "js_number \<Rightarrow> js_number \<Rightarrow> js_number" where
  "Math_max a b =
     (case (a, b) of
        (NaN, _) \<Rightarrow> NaN | (_, NaN) \<Rightarrow> NaN
      | (PosInf, _) \<Rightarrow> PosInf | (_, PosInf) \<Rightarrow> PosInf
      | (NegInf, y) \<Rightarrow> y | (x, NegInf) \<Rightarrow> x
      | (Fin x, Fin y) \<Rightarrow> Fin (max x y))"

definition Math_min :: "js_number \<Rightarrow> js_number \<Rightarrow> js_number" where
  "Math_min a b =
     (case (a, b) of
        (NaN, _) \<Rightarrow> NaN | (_, NaN) \<Rightarrow> NaN
      | (NegInf, _) \<Rightarrow> NegInf | (_, NegInf) \<Rightarrow> NegInf
      | (PosInf, y) \<Rightarrow> y | (x, PosInf) \<Rightarrow> x
      | (Fin x, Fin y) \<Rightarrow> Fin (min x y))"

text \<open>
  \<open>Number(params.get("n") ?? (isWeekly ? 15 : 10))\<close>: the argument of \<open>n_of\<close> and \<open>total_of\<close>
  is \<open>None\<close> when the URL lacks the parameter and otherwise the value \<open>Number\<close> gives for
  its text, which is \<open>NaN\<close> for text that is not a number.
\<close>

definition n_of :: "bool \<Rightarrow> js_number option \<Rightarrow> js_number" where
  "n_of weekly p =
     Math_max (Fin 1) (case p of None \<Rightarrow> Fin (if weekly then 15 else 10) | Some v \<Rightarrow> v)"

definition total_of :: "bool \<Rightarrow> js_number option \<Rightarrow> js_number" where
  "total_of weekly p =
     Math_max (Fin 5)
       (Math_min (Fin 120) (case p of None \<Rightarrow> Fin (if weekly then 12 else 20) | Some v \<Rightarrow> v))"

text \<open>\<open>a >= b\<close> and \<open>a <= b\<close> on these numbers; every comparison with \<open>NaN\<close> is false.\<close>

definition js_le :: "js_number \<Rightarrow> js_number \<Rightarrow> bool" where
  "js_le a b =
     (case (a, b) of
        (NaN, _) \<Rightarrow> False | (_, NaN) \<Rightarrow> False
      | (NegInf, _) \<Rightarrow> True | (_, PosInf) \<Rightarrow> True
      | (PosInf, _) \<Rightarrow> False | (_, NegInf) \<Rightarrow> False
      | (Fin x, Fin y) \<Rightarrow> x \<le> y)"

subsection \<open>Reading the store, and sample data\<close>

text \<open>A run that has just been started afresh on \<open>len\<close> questions (lines 307--319).\<close>

definition fresh_state :: "quiz \<Rightarrow> nat \<Rightarrow> bool" where
  "fresh_state c len \<longleftrightarrow>
     qIndex_st c = 0 \<and> score_st c = 0 \<and>
     statuses_st c = replicate len (Some Unanswered) \<and>
     timesMs_st c = replicate len (Some 0) \<and>
     running c \<and> \<not> locked c \<and> \<not> finished c"

text \<open>
  The status and the elapsed time of question \<open>i\<close> in the stored record, as the next
  \<open>readSessionSafe\<close> returns them.
\<close>

definition stored_status :: "quiz \<Rightarrow> nat \<Rightarrow> status option" where
  "stored_status c i =
     (case readSessionSafe (storage c) of Some s \<Rightarrow> js_get (statuses s) i | None \<Rightarrow> None)"

definition stored_time :: "quiz \<Rightarrow> nat \<Rightarrow> rat option" where
  "stored_time c i =
     (case readSessionSafe (storage c) of Some s \<Rightarrow> js_get (timesMs s) i | None \<Rightarrow> None)"

text \<open>
  A weekly session of two questions on 2025-03-10, twelve seconds per question.
  \<open>sample_premount\<close> is the component in the render in which the bank arrives, with the
  record of a run that was cut off before its first answer in the store; \<open>sample_quiz\<close> is
  what mounting makes of it at clock reading 1000 (lemma \<open>sample_quiz_mounted\<close>).
\<close>

definition sample_q1 :: question where
  "sample_q1 = \<lparr>qid = lit ''q1'', category = lit ''cells'', difficulty = Hard,
     prompt = lit ''p1'', options = [lit ''a'', lit ''b'', lit ''c''], correctIndex = 2,
     explanation = None\<rparr>"

definition sample_q2 :: question where
  "sample_q2 = \<lparr>qid = lit ''q2'', category = lit ''cells'', difficulty = Medium,
     prompt = lit ''p2'', options = [lit ''a'', lit ''b'', lit ''c''], correctIndex = 0,
     explanation = None\<rparr>"

definition sample_session :: WeeklySession where
  "sample_session =
     \<lparr>date = lit ''2025-03-10'', weekId = lit ''2025-W11'', qIds = [lit ''q1'', lit ''q2''],
      qIndex = 0, statuses = [Some Unanswered, Some Unanswered], timesMs = [Some 0, Some 0],
      score = 0, seed = lit ''WEEKLY-2025-03-10'', tPerQ = 12\<rparr>"

definition sample_quiz :: quiz where
  "sample_quiz =
     \<lparr>isWeekly = True, n_q = 15, total_s = 12, cat_param = [], diff_param = lit ''easy'',
      normalSeed = lit ''NORMAL-1'', bank = Some [sample_q1, sample_q2],
      resume = Some sample_session, qIndex_st = 0, running = True, selected = None,
      locked = False, lockedFor = None, score_st = 0, finished = False,
      timesMs_st = [Some 0, Some 0], statuses_st = [Some Unanswered, Some Unanswered],
      startedAt = 1000, nowTs = 1000, expiredRef = False, saving = False, saved = False,
      saveError = None, storage = Parsed sample_session, writable = True, played = False,
      today = lit ''2025-03-10'', thisWeek = lit ''2025-W11''\<rparr>"

definition sample_premount :: quiz where
  "sample_premount = sample_quiz\<lparr>resume := None, statuses_st := [], timesMs_st := []\<rparr>"

text \<open>A bank of twelve hard and three medium questions, with ids \<open>q\<close> followed by one code unit.\<close>

definition sample_q_of :: "nat \<Rightarrow> question" where
  "sample_q_of k =
     \<lparr>qid = lit ''q'' @ [of_nat k], category = lit ''cells'',
      difficulty = (if k < 12 then Hard else Medium), prompt = lit ''p'',
      options = [lit ''a'', lit ''b''], correctIndex = 0, explanation = None\<rparr>"

definition sample_bank15 :: "question list" where
  "sample_bank15 = map sample_q_of [0..<15]"

text \<open>
  A record of the same day for a run of two questions of that bank (started under \<open>?n=2\<close>),
  the first answered, and the component in the render in which the bank arrives, under
  \<open>n = 15\<close> and with that record in the store.
\<close>

definition sample_short_session :: WeeklySession where
  "sample_short_session =
     \<lparr>date = lit ''2025-03-10'', weekId = lit ''2025-W11'',
      qIds = [qid (sample_q_of 0), qid (sample_q_of 12)],
      qIndex = 1, statuses = [Some Correct, Some Unanswered], timesMs = [Some 3000, Some 0],
      score = 1, seed = lit ''WEEKLY-2025-03-10'', tPerQ = 12\<rparr>"

definition sample_mount :: quiz where
  "sample_mount =
     sample_quiz\<lparr>bank := Some sample_bank15, resume := None, statuses_st := [],
       timesMs_st := [], storage := Parsed sample_short_session\<rparr>"

text \<open>
  Runs of the two-question session: the first question answered correctly at 4000 and the
  second shown at 5000 (\<open>sample_at_last\<close>); the page left at that point (\<open>sample_left\<close>);
  the component mounted again on what that left in the store, at 20000
  (\<open>sample_reloaded\<close>); and the run completed without leaving, its attempt saved
  (\<open>sample_finished\<close>).
\<close>

definition sample_at_last :: quiz where
  "sample_at_last = next_q 5000 (choose_opt 2 4000 sample_quiz)"

definition sample_left :: quiz where
  "sample_left = finalizeOnLeave sample_at_last"

definition sample_reloaded :: quiz where
  "sample_reloaded = mount 20000 20000 (sample_premount\<lparr>storage := storage sample_left\<rparr>)"

definition sample_finished :: quiz where
  "sample_finished = finish_effect Inserted (next_q 9000 (choose_opt 0 8000 sample_at_last))"

text \<open>
  A stored value with today's date and week and nothing else, and the sample session just
  before its finishing effect runs.
\<close>

definition sample_partial_json :: json where
  "sample_partial_json =
     JObj [(lit ''date'', JStr (lit ''2025-03-10'')), (lit ''weekId'', JStr (lit ''2025-W11''))]"

definition sample_done :: quiz where
  "sample_done = next_q 9000 (choose_opt 0 8000 sample_at_last)"

section \<open>Properties\<close>

subsection \<open>The generator\<close>

lemma unat_ucast_16_32: "unat (ucast (c :: 16 word) :: 32 word) = unat c"
  by (simp add: unsigned_ucast_eq take_bit_nat_eq_self_iff)
     (rule less_trans[OF unsigned_less], simp)

lemma hash_round_unat:
  "unat (hash_round h c) = ((unat h XOR unat c) * 16777619) mod 2 ^ 32"
  by (simp add: hash_round_def unat_word_ariths unsigned_xor_eq unat_ucast_16_32)

lemma foldl_hash_unat:
  "unat (foldl hash_round h cs) =
   foldl (\<lambda>h c. ((h XOR c) * 16777619) mod 2 ^ 32) (unat h) (map unat cs)"
  by (induction cs arbitrary: h) (simp_all add: hash_round_unat)

lemma hash_snoc: "hash (str @ [c]) = hash_round (hash str) c"
  by (simp add: hash_def)

lemma prng_next_lt: "prng_next a < 2 ^ 32"
  by (simp add: prng_next_def)

lemma prng_next_exact: "(a::nat) < 2 ^ 32 \<Longrightarrow> a * 1664525 + 1013904223 < 2 ^ 53"
  by simp

lemma rnd_range: "0 \<le> fst (rnd a) \<and> fst (rnd a) < 1"
  using prng_next_lt[of a] by (simp add: rnd_def Let_def)

text \<open>
  C7.  \<open>hash\<close> is the FNV-1a fold over the code units of the string: it starts at
  2166136261, and each code unit is XORed into the accumulator, which is then multiplied by
  16777619 modulo \<open>2^32\<close>; as a whole it is the specification's fold \<open>fnv1a_spec\<close>.  One call
  of the generator moves the state \<open>a\<close> to \<open>(a * 1664525 + 1013904223) mod 2^32\<close> and returns
  the new state divided by \<open>2^32\<close>, a value in \<open>[0, 1)\<close>.
\<close>

theorem C7_hash_fnv1a_prng_lcg:
  "unat (hash []) = 2166136261 \<and>
   unat (hash (str @ [c])) = ((unat (hash str) XOR unat c) * 16777619) mod 2 ^ 32 \<and>
   unat (hash str) = fnv1a_spec (map unat str) \<and>
   snd (rnd a) = (a * 1664525 + 1013904223) mod 2 ^ 32 \<and>
   fst (rnd a) = of_nat (snd (rnd a)) / 2 ^ 32 \<and>
   0 \<le> fst (rnd a) \<and> fst (rnd a) < 1"
proof -
  have "unat (hash []) = 2166136261"
    by (simp add: hash_def)
  moreover have "unat (hash (str @ [c])) = ((unat (hash str) XOR unat c) * 16777619) mod 2 ^ 32"
    by (simp only: hash_snoc hash_round_unat)
  moreover have "unat (hash str) = fnv1a_spec (map unat str)"
    by (simp add: hash_def fnv1a_spec_def foldl_hash_unat)
  moreover have "snd (rnd a) = (a * 1664525 + 1013904223) mod 2 ^ 32"
    by (simp add: rnd_def prng_next_def Let_def)
  moreover have "fst (rnd a) = of_nat (snd (rnd a)) / 2 ^ 32"
    by (simp add: rnd_def Let_def)
  ultimately show ?thesis
    using rnd_range[of a] by blast
qed

subsection \<open>The shuffle\<close>

lemma rnd_index: "nat \<lfloor>fst (rnd a) * of_nat (i + 1)\<rfloor> \<le> i"
proof -
  have "fst (rnd a) * of_nat (i + 1) < of_nat (i + 1)"
    using rnd_range[of a] by (simp add: mult_less_cancel_right2 del: of_nat_Suc of_nat_add)
  then have "\<lfloor>fst (rnd a) * of_nat (i + 1)\<rfloor> < int (i + 1)"
    by (simp add: floor_less_iff del: of_nat_Suc of_nat_add)
  then show ?thesis by linarith
qed

lemma shuffle_body_arr: "arr (shuffle_body i st) = arr st"
  by (simp add: shuffle_body_def Let_def split: prod.splits)

lemma shuffle_body_mset:
  "i < length (copy st) \<Longrightarrow> mset (copy (shuffle_body i st)) = mset (copy st)"
proof -
  assume i: "i < length (copy st)"
  define j where "j = nat \<lfloor>fst (rnd (gen st)) * of_nat (i + 1)\<rfloor>"
  have "j \<le> i" unfolding j_def by (rule rnd_index)
  with i have j: "j < length (copy st)" by simp
  have "copy (shuffle_body i st) = (copy st)[i := copy st ! j, j := copy st ! i]"
    by (simp add: shuffle_body_def Let_def split_def j_def)
  with i j show ?thesis by (simp add: mset_swap)
qed

lemma shuffle_body_length: "length (copy (shuffle_body i st)) = length (copy st)"
  by (simp add: shuffle_body_def Let_def split: prod.splits)

lemma shuffle_loop_arr: "arr (shuffle_loop k st) = arr st"
  by (induction k arbitrary: st) (simp_all add: shuffle_body_arr)

lemma shuffle_loop_mset:
  "k < length (copy st) \<Longrightarrow> mset (copy (shuffle_loop k st)) = mset (copy st)"
  by (induction k arbitrary: st) (simp_all add: shuffle_body_mset shuffle_body_length)

lemma seededShuffle_arr: "arr (seededShuffle_run xs s) = xs"
  by (simp add: seededShuffle_run_def shuffle_loop_arr)

lemma seededShuffle_mset: "mset (seededShuffle xs s) = mset xs"
proof (cases xs)
  case Nil
  then show ?thesis by (simp add: seededShuffle_def seededShuffle_run_def)
next
  case (Cons a list)
  then show ?thesis
    by (simp add: seededShuffle_def seededShuffle_run_def shuffle_loop_mset)
qed

lemma seededShuffle_length: "length (seededShuffle xs s) = length xs"
  using seededShuffle_mset[of xs s] by (metis size_mset)

lemma seededShuffle_set: "set (seededShuffle xs s) = set xs"
  using seededShuffle_mset[of xs s] by (metis set_mset_mset)

text \<open>
  C1.  \<open>seededShuffle(L, s)\<close> leaves the caller's array as it was, returns a sequence with
  the same elements as \<open>L\<close>, each as often as in \<open>L\<close> (a permutation of \<open>L\<close>), and a second
  call on the array as the first call left it, with the same seed, returns the same sequence.
\<close>

theorem C1_seededShuffle_pure_permutation:
  "arr (seededShuffle_run L s) = L \<and>
   mset (seededShuffle L s) = mset L \<and>
   length (seededShuffle L s) = length L \<and>
   seededShuffle (arr (seededShuffle_run L s)) s = seededShuffle L s"
  by (simp add: seededShuffle_arr seededShuffle_mset seededShuffle_length)

subsection \<open>The weekly selection\<close>

lemma needHard_le: "needHard_of t \<le> t"
proof -
  have "Math_round (of_nat t * (8 / 10)) \<le> int t"
    by (simp add: Math_round_def floor_le_iff field_simps)
  then show ?thesis by (simp add: needHard_of_def)
qed

lemma needHard_15: "needHard_of 15 = 12"
proof -
  have "\<lfloor>25 / 2 :: rat\<rfloor> = 12" by (simp add: floor_eq_iff)
  then show ?thesis by (simp add: needHard_of_def Math_round_def)
qed

lemma hard_med_le_bank:
  "length (filter (\<lambda>q. difficulty q = Hard) qs) +
   length (filter (\<lambda>q. difficulty q = Medium) qs) \<le> length qs"
  by (induction qs) auto

lemma length_filter_shuffle:
  "length (filter P (seededShuffle xs s)) = length (filter P xs)"
proof -
  have "mset (filter P (seededShuffle xs s)) = mset (filter P xs)"
    by (simp add: seededShuffle_mset)
  then show ?thesis by (metis size_mset)
qed

lemma filter_take_shuffle_all:
  "(\<And>x. x \<in> set xs \<Longrightarrow> P x) \<Longrightarrow>
   filter P (take k (seededShuffle xs s)) = take k (seededShuffle xs s)"
  by (rule filter_True) (auto dest!: in_set_takeD simp: seededShuffle_set)

lemma filter_take_shuffle_none:
  "(\<And>x. x \<in> set xs \<Longrightarrow> \<not> P x) \<Longrightarrow> filter P (take k (seededShuffle xs s)) = []"
  by (auto simp: filter_empty_conv seededShuffle_set dest!: in_set_takeD)

lemma filter_same_take_shuffle:
  "filter P (take k (seededShuffle (filter P xs) s)) = take k (seededShuffle (filter P xs) s)"
  by (rule filter_take_shuffle_all) simp

lemma filter_hard_med:
  "filter (\<lambda>q. difficulty q = Hard)
     (take k (seededShuffle (filter (\<lambda>q. difficulty q = Medium) xs) s)) = []"
  by (rule filter_take_shuffle_none) simp

lemma filter_med_hard:
  "filter (\<lambda>q. difficulty q = Medium)
     (take k (seededShuffle (filter (\<lambda>q. difficulty q = Hard) xs) s)) = []"
  by (rule filter_take_shuffle_none) simp

lemma weekly_picks_enough:
  assumes "needHard_of (min n (length qs)) \<le> length (filter (\<lambda>q. difficulty q = Hard) qs)"
    and "min n (length qs) - needHard_of (min n (length qs))
           \<le> length (filter (\<lambda>q. difficulty q = Medium) qs)"
  shows "weekly_picks qs n d =
           take (needHard_of (min n (length qs)))
             (seededShuffle (filter (\<lambda>q. difficulty q = Hard) qs) (lit ''WEEKLY-HARD-'' @ d)) @
           take (min n (length qs) - needHard_of (min n (length qs)))
             (seededShuffle (filter (\<lambda>q. difficulty q = Medium) qs) (lit ''WEEKLY-MED-'' @ d))"
  using assms needHard_le[of "min n (length qs)"]
  by (simp add: weekly_picks_def Let_def seededShuffle_length min_absorb2)

lemma weekly_picks_15:
  assumes "12 \<le> length (filter (\<lambda>q. difficulty q = Hard) qs)"
    and "3 \<le> length (filter (\<lambda>q. difficulty q = Medium) qs)"
  shows "weekly_picks qs 15 d =
      take 12 (seededShuffle (filter (\<lambda>q. difficulty q = Hard) qs) (lit ''WEEKLY-HARD-'' @ d)) @
      take 3 (seededShuffle (filter (\<lambda>q. difficulty q = Medium) qs) (lit ''WEEKLY-MED-'' @ d))"
proof -
  have "15 \<le> length qs"
    using assms hard_med_le_bank[of qs] by linarith
  then have "min 15 (length qs) = 15" by simp
  then show ?thesis
    using assms weekly_picks_enough[of 15 qs d] by (simp add: needHard_15)
qed

lemma weekly_pick_15_length:
  assumes "12 \<le> length (filter (\<lambda>q. difficulty q = Hard) qs)"
    and "3 \<le> length (filter (\<lambda>q. difficulty q = Medium) qs)"
  shows "length (weekly_pick qs 15 d) = 15"
  using assms by (simp add: weekly_pick_def seededShuffle_length weekly_picks_15)

lemma sample_bank15_hard:
  "length (filter (\<lambda>q. difficulty q = Hard) sample_bank15) = 12"
  by (simp add: sample_bank15_def sample_q_of_def upt_rec)

lemma sample_bank15_medium:
  "length (filter (\<lambda>q. difficulty q = Medium) sample_bank15) = 3"
  by (simp add: sample_bank15_def sample_q_of_def upt_rec)

text \<open>
  C2.  From a bank with at least 12 hard and at least 3 medium questions, the weekly
  selection for \<open>n = 15\<close> is the shuffle under the seed \<open>WEEKLY-FINAL-<date>\<close> of the first 12
  of the shuffled hard questions followed by the first 3 of the shuffled medium questions:
  15 questions, exactly 12 of them hard and exactly 3 medium.
\<close>

theorem C2_weekly_12_hard_3_medium:
  assumes "12 \<le> length (filter (\<lambda>q. difficulty q = Hard) qs)"
    and "3 \<le> length (filter (\<lambda>q. difficulty q = Medium) qs)"
  shows "weekly_pick qs 15 d =
           seededShuffle
             (take 12 (seededShuffle (filter (\<lambda>q. difficulty q = Hard) qs)
                         (lit ''WEEKLY-HARD-'' @ d)) @
              take 3 (seededShuffle (filter (\<lambda>q. difficulty q = Medium) qs)
                        (lit ''WEEKLY-MED-'' @ d)))
             (lit ''WEEKLY-FINAL-'' @ d) \<and>
         length (weekly_pick qs 15 d) = 15 \<and>
         length (filter (\<lambda>q. difficulty q = Hard) (weekly_pick qs 15 d)) = 12 \<and>
         length (filter (\<lambda>q. difficulty q = Medium) (weekly_pick qs 15 d)) = 3"
proof -
  note picks = weekly_picks_15[OF assms, of d]
  have h: "filter (\<lambda>q. difficulty q = Hard) (weekly_picks qs 15 d) =
      take 12 (seededShuffle (filter (\<lambda>q. difficulty q = Hard) qs) (lit ''WEEKLY-HARD-'' @ d))"
    by (simp add: picks filter_same_take_shuffle filter_hard_med)
  have m: "filter (\<lambda>q. difficulty q = Medium) (weekly_picks qs 15 d) =
      take 3 (seededShuffle (filter (\<lambda>q. difficulty q = Medium) qs) (lit ''WEEKLY-MED-'' @ d))"
    by (simp add: picks filter_same_take_shuffle filter_med_hard)
  have "length (weekly_pick qs 15 d) = 15"
    using assms by (rule weekly_pick_15_length)
  moreover have "length (filter (\<lambda>q. difficulty q = Hard) (weekly_pick qs 15 d)) = 12"
    using assms by (simp add: weekly_pick_def length_filter_shuffle h seededShuffle_length)
  moreover have "length (filter (\<lambda>q. difficulty q = Medium) (weekly_pick qs 15 d)) = 3"
    using assms by (simp add: weekly_pick_def length_filter_shuffle m seededShuffle_length)
  ultimately show ?thesis by (simp add: weekly_pick_def picks)
qed

theorem C2_weekly_12_hard_3_medium_witness:
  "12 \<le> length (filter (\<lambda>q. difficulty q = Hard) sample_bank15) \<and>
   3 \<le> length (filter (\<lambda>q. difficulty q = Medium) sample_bank15) \<and>
   length (weekly_pick sample_bank15 15 (lit ''2025-03-10'')) = 15 \<and>
   length (filter (\<lambda>q. difficulty q = Hard)
             (weekly_pick sample_bank15 15 (lit ''2025-03-10''))) = 12 \<and>
   length (filter (\<lambda>q. difficulty q = Medium)
             (weekly_pick sample_bank15 15 (lit ''2025-03-10''))) = 3"
proof -
  have h: "12 \<le> length (filter (\<lambda>q. difficulty q = Hard) sample_bank15)"
    by (simp add: sample_bank15_hard)
  have m: "3 \<le> length (filter (\<lambda>q. difficulty q = Medium) sample_bank15)"
    by (simp add: sample_bank15_medium)
  show ?thesis
    using h m C2_weekly_12_hard_3_medium[OF h m, of "lit ''2025-03-10''"] by blast
qed

subsection \<open>Mounting: start and resume\<close>

lemmas sample_defs = sample_quiz_def sample_session_def sample_q1_def sample_q2_def
  sample_at_last_def sample_left_def sample_finished_def

lemmas run_defs = questions_def rebuild_def byId_def lit_def List.map_filter_def
  current_q_def setItem_def readSessionSafe_def js_set_def js_get_def
  saveWeeklySnapshot_def merge_opts_def assign_all_def no_opts_def timer_effect_def
  question_reset_def choose_opt_def next_q_def finalizeOnLeave_def leave_default_def
  timer_frame_def timer_loop_def expires_def endsAt_def load_resume_def init_effect_def
  resume_run_def fresh_run_def fresh_session_def stored_status_def stored_time_def
  finish_effect_def saveWeeklyAttempt_def snapshot_default_def Let_def

lemma load_resume_absent:
  assumes "isWeekly c" "bank c = Some b" "readSessionSafe (storage c) = None"
  shows "load_resume c = c\<lparr>resume := None\<rparr>"
  using assms by (simp add: load_resume_def)

lemma load_resume_stale:
  assumes "isWeekly c" "bank c = Some b" "readSessionSafe (storage c) = Some s"
    "date s \<noteq> today c \<or> weekId s \<noteq> thisWeek c"
  shows "load_resume c = c\<lparr>storage := NoItem, resume := None\<rparr>"
  using assms by (simp add: load_resume_def)

lemma load_resume_today:
  assumes "isWeekly c" "bank c = Some b" "readSessionSafe (storage c) = Some s"
    "date s = today c" "weekId s = thisWeek c"
  shows "load_resume c = c\<lparr>resume := Some s\<rparr>"
  using assms by (simp add: load_resume_def)

lemma init_fresh:
  assumes "questions c \<noteq> []"
    and "resume c = None \<or> (\<exists>r. resume c = Some r \<and> length (qIds r) \<noteq> length (questions c))"
  shows "init_effect now c = fresh_run now c"
  using assms by (auto simp: init_effect_def)

lemma init_resume:
  assumes "questions c \<noteq> []" "isWeekly c" "resume c = Some r"
    "length (qIds r) = length (questions c)"
  shows "init_effect now c = resume_run now r c"
  using assms by (simp add: init_effect_def)

lemma fresh_run_fields:
  "qIndex_st (fresh_run now c) = 0"
  "score_st (fresh_run now c) = 0"
  "statuses_st (fresh_run now c) = replicate (length (questions c)) (Some Unanswered)"
  "timesMs_st (fresh_run now c) = replicate (length (questions c)) (Some 0)"
  "running (fresh_run now c)" "\<not> locked (fresh_run now c)" "\<not> finished (fresh_run now c)"
  by (simp_all add: fresh_run_def timer_effect_def Let_def)

lemma fresh_run_storage:
  "isWeekly c \<Longrightarrow> writable c \<Longrightarrow>
   readSessionSafe (storage (fresh_run now c)) = Some (fresh_session c)"
  by (simp add: fresh_run_def timer_effect_def Let_def setItem_def readSessionSafe_def)

lemma resume_run_fields:
  "qIndex_st (resume_run now r c) = min (qIndex r) (length (questions c) - 1)"
  "score_st (resume_run now r c) = score r"
  "statuses_st (resume_run now r c) = take (length (questions c)) (statuses r)"
  "timesMs_st (resume_run now r c) = take (length (questions c)) (timesMs r)"
  "running (resume_run now r c)" "\<not> locked (resume_run now r c)"
  "\<not> finished (resume_run now r c)"
  by (simp_all add: resume_run_def timer_effect_def)

lemma questions_resume_None:
  "bank c = Some b \<Longrightarrow> isWeekly c \<Longrightarrow>
   questions (c\<lparr>resume := None\<rparr>) = weekly_pick b (n_q c) (today c)"
  "bank c = Some b \<Longrightarrow> isWeekly c \<Longrightarrow>
   questions (c\<lparr>storage := NoItem, resume := None\<rparr>) = weekly_pick b (n_q c) (today c)"
  by (simp_all add: questions_def)

lemma questions_resume_Some:
  "bank c = Some b \<Longrightarrow> isWeekly c \<Longrightarrow>
   questions (c\<lparr>resume := Some s\<rparr>) =
     (if qIds s \<noteq> [] then rebuild b (qIds s) else weekly_pick b (n_q c) (today c))"
  by (simp add: questions_def)

lemma load_resume_keeps:
  "isWeekly (load_resume c) = isWeekly c" "writable (load_resume c) = writable c"
  by (simp_all add: load_resume_def split: option.splits)

text \<open>Initialising a run touches none of its parameters, nor \<open>resume\<close>.\<close>

lemma fresh_run_params:
  "bank (fresh_run now c) = bank c" "isWeekly (fresh_run now c) = isWeekly c"
  "resume (fresh_run now c) = resume c" "n_q (fresh_run now c) = n_q c"
  "today (fresh_run now c) = today c" "thisWeek (fresh_run now c) = thisWeek c"
  "total_s (fresh_run now c) = total_s c" "cat_param (fresh_run now c) = cat_param c"
  "diff_param (fresh_run now c) = diff_param c" "normalSeed (fresh_run now c) = normalSeed c"
  "writable (fresh_run now c) = writable c"
  by (simp_all add: fresh_run_def timer_effect_def Let_def)

lemma resume_run_params:
  "bank (resume_run now r c) = bank c" "isWeekly (resume_run now r c) = isWeekly c"
  "resume (resume_run now r c) = resume c" "n_q (resume_run now r c) = n_q c"
  "today (resume_run now r c) = today c" "thisWeek (resume_run now r c) = thisWeek c"
  "total_s (resume_run now r c) = total_s c" "cat_param (resume_run now r c) = cat_param c"
  "diff_param (resume_run now r c) = diff_param c"
  "normalSeed (resume_run now r c) = normalSeed c"
  "writable (resume_run now r c) = writable c" "storage (resume_run now r c) = storage c"
  by (simp_all add: resume_run_def timer_effect_def)

lemma init_effect_params:
  "bank (init_effect now c) = bank c" "isWeekly (init_effect now c) = isWeekly c"
  "resume (init_effect now c) = resume c" "n_q (init_effect now c) = n_q c"
  "today (init_effect now c) = today c" "thisWeek (init_effect now c) = thisWeek c"
  "total_s (init_effect now c) = total_s c" "cat_param (init_effect now c) = cat_param c"
  "diff_param (init_effect now c) = diff_param c"
  "normalSeed (init_effect now c) = normalSeed c"
  "writable (init_effect now c) = writable c"
  by (simp_all add: init_effect_def fresh_run_params resume_run_params split: option.splits)

lemma questions_cong:
  assumes "bank c' = bank c" "isWeekly c' = isWeekly c" "resume c' = resume c"
    "n_q c' = n_q c" "today c' = today c" "cat_param c' = cat_param c"
    "diff_param c' = diff_param c" "normalSeed c' = normalSeed c"
  shows "questions c' = questions c"
  using assms by (simp add: questions_def split: option.splits)

lemma questions_init: "questions (init_effect now c) = questions c"
  by (rule questions_cong) (simp_all add: init_effect_params)

lemma questions_init_resume:
  "questions ((init_effect now c)\<lparr>resume := r\<rparr>) = questions (c\<lparr>resume := r\<rparr>)"
  by (rule questions_cong) (simp_all add: init_effect_params)

lemma questions_fresh_run: "questions (fresh_run now c) = questions c"
  by (rule questions_cong) (simp_all add: fresh_run_params)

lemma fresh_session_cong:
  assumes "today c' = today c" "thisWeek c' = thisWeek c" "total_s c' = total_s c"
    "questions c' = questions c"
  shows "fresh_session c' = fresh_session c"
  using assms by (simp add: fresh_session_def)

lemma resume_same: "resume c = x \<Longrightarrow> c\<lparr>resume := x\<rparr> = c"
  by (cases c) simp

text \<open>The three courses a mount in weekly mode can take.\<close>

lemma mount_absent:
  assumes "isWeekly c" "bank c = Some b" "resume c = None"
    "readSessionSafe (storage c) = None"
  shows "mount now now' c = init_effect now c"
proof -
  have l: "load_resume c = c"
    using assms by (simp add: load_resume_absent resume_same)
  have "resume (init_effect now c) = None"
    using assms by (simp add: init_effect_params)
  then have "(init_effect now c)\<lparr>resume := None\<rparr> = init_effect now c"
    by (rule resume_same)
  then show ?thesis
    using assms by (simp add: mount_def l resume_same)
qed

lemma mount_stale:
  assumes "isWeekly c" "bank c = Some b" "resume c = None"
    "readSessionSafe (storage c) = Some s" "date s \<noteq> today c \<or> weekId s \<noteq> thisWeek c"
  shows "mount now now' c = init_effect now (c\<lparr>storage := NoItem\<rparr>)"
proof -
  have "(c\<lparr>storage := NoItem\<rparr>)\<lparr>resume := None\<rparr> = c\<lparr>storage := NoItem\<rparr>"
    using assms by (simp add: resume_same)
  then have l: "load_resume c = c\<lparr>storage := NoItem\<rparr>"
    using assms by (simp add: load_resume_stale)
  have "resume (init_effect now (c\<lparr>storage := NoItem\<rparr>)) = None"
    using assms by (simp add: init_effect_params)
  then have "(init_effect now (c\<lparr>storage := NoItem\<rparr>))\<lparr>resume := None\<rparr>
      = init_effect now (c\<lparr>storage := NoItem\<rparr>)"
    by (rule resume_same)
  then show ?thesis
    using assms by (simp add: mount_def l resume_same)
qed

lemma mount_today:
  assumes "isWeekly c" "bank c = Some b" "resume c = None"
    "readSessionSafe (storage c) = Some s" "date s = today c" "weekId s = thisWeek c"
  shows "mount now now' c = init_effect now' ((init_effect now c)\<lparr>resume := Some s\<rparr>)"
proof -
  have l: "load_resume c = c\<lparr>resume := Some s\<rparr>"
    using assms by (simp add: load_resume_today)
  have e: "c\<lparr>resume := None\<rparr> = c"
    using assms by (simp add: resume_same)
  show ?thesis
    using assms by (simp add: mount_def l e)
qed


text \<open>
  C6, as the code has it.  The component is in weekly mode, the bank has arrived, \<open>resume\<close>
  is still empty, and the mount ends with a non-empty question list.  If the store has no
  readable record, or the record is not of today (date or week differ), or the number of
  its question ids differs from the number of questions in use, the mount ends in a run
  started afresh: index 0, score 0, every status \<open>unanswered\<close>, every time 0, and the new
  record in the store when the store takes the write.  The questions in use, when today's
  record has ids, are those ids looked up in the bank, unknown ids dropped; a new selection
  is in use only when the record has no ids.  If the counts agree, the mount ends in a run
  that resumes in memory at \<open>min(stored index, last index)\<close> with the stored statuses and
  times, cut to the number of questions, and the stored score.
\<close>

theorem C6_start_or_resume:
  assumes w: "isWeekly c" and b: "bank c = Some b" and r: "resume c = None"
    and q: "questions (mount now now' c) \<noteq> []"
  shows
   "(readSessionSafe (storage c) = None \<or>
     (\<exists>s. readSessionSafe (storage c) = Some s \<and>
          (date s \<noteq> today c \<or> weekId s \<noteq> thisWeek c \<or>
           length (qIds s) \<noteq> length (questions (mount now now' c)))) \<longrightarrow>
       fresh_state (mount now now' c) (length (questions (mount now now' c))) \<and>
       (writable c \<longrightarrow>
          readSessionSafe (storage (mount now now' c))
            = Some (fresh_session (mount now now' c)))) \<and>
    (\<forall>s. readSessionSafe (storage c) = Some s \<and> date s = today c \<and> weekId s = thisWeek c \<longrightarrow>
       questions (mount now now' c) =
         (if qIds s \<noteq> [] then rebuild b (qIds s) else weekly_pick b (n_q c) (today c)) \<and>
       (length (qIds s) = length (questions (mount now now' c)) \<longrightarrow>
          qIndex_st (mount now now' c)
            = min (qIndex s) (length (questions (mount now now' c)) - 1) \<and>
          statuses_st (mount now now' c)
            = take (length (questions (mount now now' c))) (statuses s) \<and>
          timesMs_st (mount now now' c)
            = take (length (questions (mount now now' c))) (timesMs s) \<and>
          score_st (mount now now' c) = score s \<and>
          running (mount now now' c) \<and>
          \<not> locked (mount now now' c)))"
proof -
  have fresh: "fresh_state (fresh_run t d) (length (questions (fresh_run t d))) \<and>
      (writable c \<longrightarrow> readSessionSafe (storage (fresh_run t d))
                       = Some (fresh_session (fresh_run t d)))"
    if "isWeekly d" "writable d = writable c" for t d
  proof -
    have "fresh_session (fresh_run t d) = fresh_session d"
      by (rule fresh_session_cong) (simp_all add: fresh_run_params questions_fresh_run)
    then show ?thesis
      using that
      by (simp add: fresh_state_def fresh_run_fields questions_fresh_run fresh_run_storage)
  qed
  show ?thesis
  proof (cases "readSessionSafe (storage c)")
    case None
    have m: "mount now now' c = init_effect now c"
      using w b r None by (rule mount_absent)
    from q have "questions c \<noteq> []"
      by (simp add: m questions_init)
    then have "mount now now' c = fresh_run now c"
      using r by (simp add: m init_fresh)
    then show ?thesis
      using None fresh[of c now] w by simp
  next
    case (Some s)
    show ?thesis
    proof (cases "date s \<noteq> today c \<or> weekId s \<noteq> thisWeek c")
      case True
      have m: "mount now now' c = init_effect now (c\<lparr>storage := NoItem\<rparr>)"
        using w b r Some True by (rule mount_stale)
      from q have "questions (c\<lparr>storage := NoItem\<rparr>) \<noteq> []"
        by (simp add: m questions_init)
      then have "mount now now' c = fresh_run now (c\<lparr>storage := NoItem\<rparr>)"
        using r by (simp add: m init_fresh)
      then show ?thesis
        using Some True fresh[of "c\<lparr>storage := NoItem\<rparr>" now] w by auto
    next
      case False
      then have d: "date s = today c" "weekId s = thisWeek c" by simp_all
      let ?B = "(init_effect now c)\<lparr>resume := Some s\<rparr>"
      have m: "mount now now' c = init_effect now' ?B"
        using w b r Some d by (rule mount_today)
      have qB: "questions (mount now now' c) = questions ?B"
        by (simp only: m questions_init)
      have qs: "questions ?B =
          (if qIds s \<noteq> [] then rebuild b (qIds s) else weekly_pick b (n_q c) (today c))"
        using w b by (simp only: questions_init_resume questions_resume_Some)
      have wB: "isWeekly ?B" "writable ?B = writable c" "resume ?B = Some s"
        using w by (simp_all add: init_effect_params)
      from q qB have nB: "questions ?B \<noteq> []" by simp
      show ?thesis
      proof (cases "length (qIds s) = length (questions ?B)")
        case eq: True
        have run: "mount now now' c = resume_run now' s ?B"
          unfolding m using nB wB(1) wB(3) eq by (rule init_resume)
        have qr: "questions (resume_run now' s ?B) = questions ?B"
          by (rule questions_cong) (simp_all add: resume_run_params)
        show ?thesis
          using Some d eq qs
          by (simp add: run qr resume_run_fields)
      next
        case ne: False
        have run: "mount now now' c = fresh_run now' ?B"
          unfolding m using nB wB(3) ne by (simp add: init_fresh)
        show ?thesis
          using Some d ne qs fresh[of ?B now'] wB
          by (simp add: run questions_fresh_run)
      qed
    qed
  qed
qed

text \<open>
  What the theorem leaves out: when the run is resumed, the store no longer holds the
  record it was resumed from.  The initialising effect has first run with \<open>resume\<close> still
  empty and has written its fresh record over it.
\<close>

lemma mount_resume_overwrites_store:
  assumes "isWeekly c" "bank c = Some b" "resume c = None" "writable c"
    "readSessionSafe (storage c) = Some s" "date s = today c" "weekId s = thisWeek c"
    "questions c \<noteq> []" "questions (mount now now' c) \<noteq> []"
    "length (qIds s) = length (questions (mount now now' c))"
  shows "readSessionSafe (storage (mount now now' c)) = Some (fresh_session c)"
proof -
  let ?B = "(init_effect now c)\<lparr>resume := Some s\<rparr>"
  have m: "mount now now' c = init_effect now' ?B"
    using assms(1,2,3,5,6,7) by (rule mount_today)
  have qB: "questions (mount now now' c) = questions ?B"
    by (simp only: m questions_init)
  have "mount now now' c = resume_run now' s ?B"
    unfolding m using assms(1,9,10) qB by (simp add: init_resume init_effect_params)
  then have "storage (mount now now' c) = storage (init_effect now c)"
    by (simp add: resume_run_params)
  also have "init_effect now c = fresh_run now c"
    using assms(3,8) by (simp add: init_fresh)
  finally show ?thesis
    using assms(1,4) by (simp add: fresh_run_storage)
qed


text \<open>The sample states are what the component reaches.\<close>

lemma seededShuffle_single: "seededShuffle [x] s = [x]"
  by (simp add: seededShuffle_def seededShuffle_run_def)

lemma seededShuffle_nil: "seededShuffle [] s = []"
  by (simp add: seededShuffle_def seededShuffle_run_def)

lemma seededShuffle_pair:
  "seededShuffle [x, y] s =
     (if nat \<lfloor>fst (rnd (prng (hash s))) * 2\<rfloor> = 0 then [y, x] else [x, y])"
proof -
  have "nat \<lfloor>fst (rnd (prng (hash s))) * of_nat (1 + 1)\<rfloor> \<le> 1"
    by (rule rnd_index)
  then have "nat \<lfloor>fst (rnd (prng (hash s))) * 2\<rfloor> = 0 \<or>
             nat \<lfloor>fst (rnd (prng (hash s))) * 2\<rfloor> = 1"
    by (simp add: le_Suc_eq)
  then show ?thesis
    by (auto simp: seededShuffle_def seededShuffle_run_def shuffle_body_def split_def Let_def)
qed

lemma sample_final_index:
  "nat \<lfloor>fst (rnd (prng (hash (lit ''WEEKLY-FINAL-'' @ lit ''2025-03-10'')))) * 2\<rfloor> = 1"
proof -
  have "\<lfloor>fst (rnd (prng (hash (lit ''WEEKLY-FINAL-'' @ lit ''2025-03-10'')))) * 2\<rfloor> = 1"
    by (simp add: floor_eq_iff rnd_def prng_next_def prng_def hash_def hash_round_def
        lit_def Let_def)
  then show ?thesis by simp
qed

lemma needHard_2: "needHard_of (Suc (Suc 0)) = Suc (Suc 0)"
proof -
  have "\<lfloor>21 / 10 :: rat\<rfloor> = 2" by (simp add: floor_eq_iff)
  then show ?thesis by (simp add: needHard_of_def Math_round_def)
qed

lemma sample_pick2:
  "weekly_pick [sample_q1, sample_q2] 15 (lit ''2025-03-10'') = [sample_q1, sample_q2]"
proof -
  have d: "difficulty sample_q1 = Hard" "difficulty sample_q2 = Medium"
    by (simp_all add: sample_q1_def sample_q2_def)
  have i: "qid sample_q2 \<noteq> qid sample_q1"
    by (simp add: sample_q1_def sample_q2_def lit_def)
  have "weekly_picks [sample_q1, sample_q2] 15 (lit ''2025-03-10'') = [sample_q1, sample_q2]"
    by (simp add: weekly_picks_def Let_def d i needHard_2 seededShuffle_single
        seededShuffle_nil)
  then show ?thesis
    by (simp add: weekly_pick_def seededShuffle_pair sample_final_index)
qed

lemma sample_premount_fields:
  "isWeekly (sample_premount\<lparr>storage := x\<rparr>)"
  "bank (sample_premount\<lparr>storage := x\<rparr>) = Some [sample_q1, sample_q2]"
  "resume (sample_premount\<lparr>storage := x\<rparr>) = None"
  "today (sample_premount\<lparr>storage := x\<rparr>) = lit ''2025-03-10''"
  "thisWeek (sample_premount\<lparr>storage := x\<rparr>) = lit ''2025-W11''"
  "n_q (sample_premount\<lparr>storage := x\<rparr>) = 15"
  by (simp_all add: sample_premount_def sample_quiz_def)

lemma sample_premount_questions:
  "questions (sample_premount\<lparr>storage := x\<rparr>) = [sample_q1, sample_q2]"
  by (simp add: questions_def sample_premount_fields sample_pick2)

lemma sample_premount_mount:
  assumes "date s = lit ''2025-03-10''" "weekId s = lit ''2025-W11''"
    "qIds s = [lit ''q1'', lit ''q2'']"
  shows "mount now now' (sample_premount\<lparr>storage := Parsed s\<rparr>) =
     resume_run now' s ((fresh_run now (sample_premount\<lparr>storage := Parsed s\<rparr>))\<lparr>resume := Some s\<rparr>)"
proof -
  let ?c = "sample_premount\<lparr>storage := Parsed s\<rparr>"
  let ?B = "(init_effect now ?c)\<lparr>resume := Some s\<rparr>"
  have m: "mount now now' ?c = init_effect now' ?B"
    by (rule mount_today[where b = "[sample_q1, sample_q2]"])
       (simp_all add: sample_premount_fields assms readSessionSafe_def)
  have a: "init_effect now ?c = fresh_run now ?c"
    by (rule init_fresh) (simp_all add: sample_premount_questions sample_premount_fields)
  have "questions ?B = questions (?c\<lparr>resume := Some s\<rparr>)"
    by (rule questions_init_resume)
  also have "\<dots> = rebuild [sample_q1, sample_q2] (qIds s)"
    by (simp add: questions_resume_Some[where b = "[sample_q1, sample_q2]"]
        sample_premount_fields assms)
  also have "\<dots> = [sample_q1, sample_q2]"
    by (simp add: assms rebuild_def byId_def List.map_filter_def sample_q1_def sample_q2_def
        lit_def)
  finally have qB: "questions ?B = [sample_q1, sample_q2]" .
  have "init_effect now' ?B = resume_run now' s ?B"
    by (rule init_resume) (simp_all add: qB assms init_effect_params sample_premount_fields)
  then show ?thesis
    by (simp only: m a)
qed

lemma sample_resumed_questions:
  assumes "qIds s = [lit ''q1'', lit ''q2'']"
  shows "questions ((fresh_run now (sample_premount\<lparr>storage := x\<rparr>))\<lparr>resume := Some s\<rparr>)
     = [sample_q1, sample_q2]"
proof -
  have "questions ((fresh_run now (sample_premount\<lparr>storage := x\<rparr>))\<lparr>resume := Some s\<rparr>)
      = questions ((sample_premount\<lparr>storage := x\<rparr>)\<lparr>resume := Some s\<rparr>)"
    by (rule questions_cong) (simp_all add: fresh_run_params)
  also have "\<dots> = rebuild [sample_q1, sample_q2] (qIds s)"
    by (simp add: questions_resume_Some[where b = "[sample_q1, sample_q2]"]
        sample_premount_fields assms)
  also have "\<dots> = [sample_q1, sample_q2]"
    by (simp add: assms rebuild_def byId_def List.map_filter_def sample_q1_def sample_q2_def
        lit_def)
  finally show ?thesis .
qed

lemma sample_quiz_mounted: "mount 1000 1000 sample_premount = sample_quiz"
proof -
  have s: "sample_premount\<lparr>storage := Parsed sample_session\<rparr> = sample_premount"
    by (simp add: sample_premount_def sample_quiz_def)
  have qB: "questions ((fresh_run 1000 (sample_premount\<lparr>storage := Parsed sample_session\<rparr>))
                         \<lparr>resume := Some sample_session\<rparr>) = [sample_q1, sample_q2]"
    by (rule sample_resumed_questions) (simp add: sample_session_def)
  have "mount 1000 1000 (sample_premount\<lparr>storage := Parsed sample_session\<rparr>) =
     resume_run 1000 sample_session
       ((fresh_run 1000 (sample_premount\<lparr>storage := Parsed sample_session\<rparr>))
          \<lparr>resume := Some sample_session\<rparr>)"
    by (rule sample_premount_mount) (simp_all add: sample_session_def)
  also have "\<dots> = sample_quiz"
    apply (simp only: resume_run_def qB)
    apply (simp only: fresh_run_def fresh_session_def sample_premount_questions Let_def)
    apply (simp add: timer_effect_def setItem_def sample_premount_def sample_quiz_def
        sample_session_def sample_q1_def sample_q2_def lit_def)
    done
  finally show ?thesis by (simp only: s)
qed

lemma sample_left_storage:
  "storage sample_left =
     Parsed (sample_session\<lparr>qIndex := 1, statuses := [Some Correct, Some Penalized],
               timesMs := [Some 3000, Some 12000], score := 1\<rparr>)"
  by (simp add: sample_defs run_defs)

lemma sample_reloaded_eq:
  "sample_reloaded =
     sample_quiz\<lparr>resume := Some (sample_session\<lparr>qIndex := 1,
                        statuses := [Some Correct, Some Penalized],
                        timesMs := [Some 3000, Some 12000], score := 1\<rparr>),
       qIndex_st := 1, score_st := 1, timesMs_st := [Some 3000, Some 12000],
       statuses_st := [Some Correct, Some Penalized], startedAt := 20000, nowTs := 20000\<rparr>"
proof -
  let ?L = "sample_session\<lparr>qIndex := 1, statuses := [Some Correct, Some Penalized],
               timesMs := [Some 3000, Some 12000], score := 1\<rparr>"
  have qB: "questions ((fresh_run 20000 (sample_premount\<lparr>storage := Parsed ?L\<rparr>))
                         \<lparr>resume := Some ?L\<rparr>) = [sample_q1, sample_q2]"
    by (rule sample_resumed_questions) (simp add: sample_session_def)
  have "sample_reloaded = mount 20000 20000 (sample_premount\<lparr>storage := Parsed ?L\<rparr>)"
    by (simp only: sample_reloaded_def sample_left_storage)
  also have "\<dots> = resume_run 20000 ?L
       ((fresh_run 20000 (sample_premount\<lparr>storage := Parsed ?L\<rparr>))\<lparr>resume := Some ?L\<rparr>)"
    by (rule sample_premount_mount) (simp_all add: sample_session_def)
  also have "\<dots> = sample_quiz\<lparr>resume := Some ?L,
       qIndex_st := 1, score_st := 1, timesMs_st := [Some 3000, Some 12000],
       statuses_st := [Some Correct, Some Penalized], startedAt := 20000, nowTs := 20000\<rparr>"
    apply (simp only: resume_run_def qB)
    apply (simp only: fresh_run_def fresh_session_def sample_premount_questions Let_def)
    apply (simp add: timer_effect_def setItem_def sample_premount_def sample_quiz_def
        sample_session_def sample_q1_def sample_q2_def lit_def)
    done
  finally show ?thesis .
qed

text \<open>The mount of the fifteen-question bank, on an empty store and on the two-id record.\<close>

lemma sample_mount_fields:
  "isWeekly sample_mount" "bank sample_mount = Some sample_bank15" "n_q sample_mount = 15"
  "today sample_mount = lit ''2025-03-10''" "thisWeek sample_mount = lit ''2025-W11''"
  "storage sample_mount = Parsed sample_short_session" "resume sample_mount = None"
  "writable sample_mount"
  by (simp_all add: sample_mount_def sample_quiz_def)

lemma sample_short_fields:
  "date sample_short_session = lit ''2025-03-10''"
  "weekId sample_short_session = lit ''2025-W11''"
  "length (qIds sample_short_session) = 2" "qIndex sample_short_session = 1"
  "statuses sample_short_session = [Some Correct, Some Unanswered]"
  "timesMs sample_short_session = [Some 3000, Some 0]" "score sample_short_session = 1"
  by (simp_all add: sample_short_session_def)

lemma sample_mount_pick: "length (questions sample_mount) = 15"
  by (simp add: questions_def sample_mount_fields weekly_pick_15_length
      sample_bank15_hard sample_bank15_medium)

lemma sample_mount_today:
  "mount 20000 20000 sample_mount
     = init_effect 20000 ((init_effect 20000 sample_mount)\<lparr>resume := Some sample_short_session\<rparr>)"
  by (rule mount_today[where b = sample_bank15])
     (simp_all add: sample_mount_fields sample_short_fields readSessionSafe_def)

lemma sample_mount_questions:
  "questions (mount 20000 20000 sample_mount) = [sample_q_of 0, sample_q_of 12]"
proof -
  have "questions (mount 20000 20000 sample_mount)
      = questions (sample_mount\<lparr>resume := Some sample_short_session\<rparr>)"
    by (simp only: sample_mount_today questions_init questions_init_resume)
  also have "\<dots> = rebuild sample_bank15 (qIds sample_short_session)"
    by (simp add: questions_resume_Some[where b = sample_bank15] sample_mount_fields
        sample_short_session_def)
  also have "\<dots> = [sample_q_of 0, sample_q_of 12]"
    by (simp add: sample_short_session_def rebuild_def byId_def List.map_filter_def
        sample_bank15_def sample_q_of_def lit_def upt_rec)
  finally show ?thesis .
qed

lemma sample_empty_store_questions:
  "length (questions (mount 20000 20000 (sample_mount\<lparr>storage := NoItem\<rparr>))) = 15"
proof -
  have "mount 20000 20000 (sample_mount\<lparr>storage := NoItem\<rparr>)
          = init_effect 20000 (sample_mount\<lparr>storage := NoItem\<rparr>)"
    by (rule mount_absent[where b = sample_bank15])
       (simp_all add: sample_mount_fields readSessionSafe_def)
  then have "questions (mount 20000 20000 (sample_mount\<lparr>storage := NoItem\<rparr>))
      = questions (sample_mount\<lparr>storage := NoItem\<rparr>)"
    by (simp only: questions_init)
  also have "\<dots> = weekly_pick sample_bank15 15 (lit ''2025-03-10'')"
    by (simp add: questions_def sample_mount_fields)
  finally show ?thesis
    by (simp add: weekly_pick_15_length sample_bank15_hard sample_bank15_medium)
qed

lemma sample_mount_store_overwritten:
  "readSessionSafe (storage (mount 20000 20000 sample_mount)) = Some (fresh_session sample_mount)"
  "length (qIds (fresh_session sample_mount)) = 15"
proof -
  have n: "questions sample_mount \<noteq> []"
    using sample_mount_pick by auto
  show "readSessionSafe (storage (mount 20000 20000 sample_mount))
      = Some (fresh_session sample_mount)"
    by (rule mount_resume_overwrites_store[where b = sample_bank15 and s = sample_short_session])
       (simp_all add: sample_mount_fields sample_short_fields readSessionSafe_def n
          sample_mount_questions)
  show "length (qIds (fresh_session sample_mount)) = 15"
    by (simp add: fresh_session_def sample_mount_pick)
qed

theorem C6_start_or_resume_witness:
  "isWeekly (sample_mount\<lparr>storage := NoItem\<rparr>) \<and>
   bank (sample_mount\<lparr>storage := NoItem\<rparr>) = Some sample_bank15 \<and>
   resume (sample_mount\<lparr>storage := NoItem\<rparr>) = None \<and>
   questions (mount 20000 20000 (sample_mount\<lparr>storage := NoItem\<rparr>)) \<noteq> [] \<and>
   readSessionSafe (storage (sample_mount\<lparr>storage := NoItem\<rparr>)) = None \<and>
   fresh_state (mount 20000 20000 (sample_mount\<lparr>storage := NoItem\<rparr>)) 15 \<and>
   isWeekly sample_mount \<and> bank sample_mount = Some sample_bank15 \<and>
   resume sample_mount = None \<and>
   questions (mount 20000 20000 sample_mount) \<noteq> [] \<and>
   readSessionSafe (storage sample_mount) = Some sample_short_session \<and>
   date sample_short_session = today sample_mount \<and>
   weekId sample_short_session = thisWeek sample_mount \<and>
   length (qIds sample_short_session) = length (questions (mount 20000 20000 sample_mount)) \<and>
   qIndex_st (mount 20000 20000 sample_mount) = 1 \<and>
   statuses_st (mount 20000 20000 sample_mount) = [Some Correct, Some Unanswered] \<and>
   timesMs_st (mount 20000 20000 sample_mount) = [Some 3000, Some 0] \<and>
   score_st (mount 20000 20000 sample_mount) = 1"
proof -
  have w1: "isWeekly (sample_mount\<lparr>storage := NoItem\<rparr>)"
    and b1: "bank (sample_mount\<lparr>storage := NoItem\<rparr>) = Some sample_bank15"
    and e1: "resume (sample_mount\<lparr>storage := NoItem\<rparr>) = None"
    and r1: "readSessionSafe (storage (sample_mount\<lparr>storage := NoItem\<rparr>)) = None"
    by (simp_all add: sample_mount_fields readSessionSafe_def)
  have q1: "questions (mount 20000 20000 (sample_mount\<lparr>storage := NoItem\<rparr>)) \<noteq> []"
    using sample_empty_store_questions by auto
  have w2: "isWeekly sample_mount" and b2: "bank sample_mount = Some sample_bank15"
    and e2: "resume sample_mount = None"
    by (simp_all add: sample_mount_fields)
  have q2: "questions (mount 20000 20000 sample_mount) \<noteq> []"
    by (simp add: sample_mount_questions)
  have r2: "readSessionSafe (storage sample_mount) = Some sample_short_session \<and>
      date sample_short_session = today sample_mount \<and>
      weekId sample_short_session = thisWeek sample_mount"
    by (simp add: sample_mount_fields sample_short_fields readSessionSafe_def)
  have l2: "length (qIds sample_short_session)
      = length (questions (mount 20000 20000 sample_mount))"
    by (simp add: sample_mount_questions sample_short_fields)
  from C6_start_or_resume[OF w1 b1 e1 q1] r1
  have f: "fresh_state (mount 20000 20000 (sample_mount\<lparr>storage := NoItem\<rparr>)) 15"
    by (simp only: sample_empty_store_questions) simp
  from C6_start_or_resume[OF w2 b2 e2 q2] r2 l2
  have "qIndex_st (mount 20000 20000 sample_mount)
            = min (qIndex sample_short_session)
                (length (questions (mount 20000 20000 sample_mount)) - 1) \<and>
        statuses_st (mount 20000 20000 sample_mount)
            = take (length (questions (mount 20000 20000 sample_mount)))
                (statuses sample_short_session) \<and>
        timesMs_st (mount 20000 20000 sample_mount)
            = take (length (questions (mount 20000 20000 sample_mount)))
                (timesMs sample_short_session) \<and>
        score_st (mount 20000 20000 sample_mount) = score sample_short_session"
    by blast
  then have g: "qIndex_st (mount 20000 20000 sample_mount) = 1 \<and>
   statuses_st (mount 20000 20000 sample_mount) = [Some Correct, Some Unanswered] \<and>
   timesMs_st (mount 20000 20000 sample_mount) = [Some 3000, Some 0] \<and>
   score_st (mount 20000 20000 sample_mount) = 1"
    by (simp add: sample_mount_questions sample_short_fields)
  show ?thesis
    using w1 b1 e1 q1 r1 f w2 b2 e2 q2 r2 l2 g by blast
qed

text \<open>
  The claim as stated fails.  The stored record of today has two question ids (the run was
  started under \<open>?n=2\<close>); the selection computed for the present \<open>n = 15\<close> has 15
  questions.  The lengths differ, yet the mount ends in a run resumed on the two stored
  questions, at the stored index and with the stored status and score.
\<close>

theorem C6_length_mismatch_counterexample:
  "readSessionSafe (storage sample_mount) = Some sample_short_session \<and>
   length (qIds sample_short_session)
     \<noteq> length (weekly_pick sample_bank15 (n_q sample_mount) (today sample_mount)) \<and>
   \<not> fresh_state (mount 20000 20000 sample_mount)
       (length (questions (mount 20000 20000 sample_mount))) \<and>
   qIndex_st (mount 20000 20000 sample_mount) = 1 \<and>
   statuses_st (mount 20000 20000 sample_mount) = [Some Correct, Some Unanswered] \<and>
   score_st (mount 20000 20000 sample_mount) = 1"
proof -
  let ?B = "(init_effect 20000 sample_mount)\<lparr>resume := Some sample_short_session\<rparr>"
  have qB: "questions ?B = [sample_q_of 0, sample_q_of 12]"
    using sample_mount_questions by (simp only: sample_mount_today questions_init)
  have run: "mount 20000 20000 sample_mount = resume_run 20000 sample_short_session ?B"
    unfolding sample_mount_today
    by (rule init_resume)
       (simp_all add: qB sample_short_fields init_effect_params sample_mount_fields)
  have "length (weekly_pick sample_bank15 (n_q sample_mount) (today sample_mount)) = 15"
    by (simp add: sample_mount_fields weekly_pick_15_length sample_bank15_hard
        sample_bank15_medium)
  then show ?thesis
    unfolding run
    by (simp add: resume_run_fields fresh_state_def qB sample_short_fields
        sample_mount_fields readSessionSafe_def questions_cong[of "resume_run 20000 sample_short_session ?B" ?B]
        resume_run_params)
qed


subsection \<open>The session state machine\<close>

lemma js_get_js_set: "js_get (js_set xs k v) i = (if i = k then Some v else js_get xs i)"
  by (auto simp: js_get_def js_set_def nth_append)

lemma stored_Parsed:
  "stored_status (c\<lparr>storage := Parsed r\<rparr>) i = js_get (statuses r) i"
  "stored_time (c\<lparr>storage := Parsed r\<rparr>) i = js_get (timesMs r) i"
  "readSessionSafe (storage (c\<lparr>storage := Parsed r\<rparr>)) = Some r"
  by (simp_all add: stored_status_def stored_time_def readSessionSafe_def)

lemma stored_storage_cong:
  "storage c' = storage c \<Longrightarrow>
   stored_status c' i = stored_status c i \<and> stored_time c' i = stored_time c i"
  by (simp add: stored_status_def stored_time_def)

lemma choose_locked: "locked c \<Longrightarrow> choose_opt idx now c = c"
  by (simp add: choose_opt_def split: option.splits)

lemma timer_frame_idle: "locked c \<or> \<not> running c \<Longrightarrow> timer_frame t c = c"
  by (auto simp: timer_frame_def)

lemma timer_frame_early:
  "running c \<Longrightarrow> \<not> locked c \<Longrightarrow> \<not> expires t c \<Longrightarrow> timer_frame t c = c\<lparr>nowTs := t\<rparr>"
  by (simp add: timer_frame_def timer_loop_def)

lemma timer_frame_fires:
  assumes "running c" "\<not> locked c" "expires t c"
  shows "locked (timer_frame t c)" "\<not> running (timer_frame t c)"
    "lockedFor (timer_frame t c) = Some (qIndex_st c)"
    "nowTs (timer_frame t c) = t"
    "js_get (timesMs_st (timer_frame t c)) (qIndex_st c) = Some (total_s c * 1000)"
    "js_get (statuses_st (timer_frame t c)) (qIndex_st c) =
       (if js_get (statuses_st c) (qIndex_st c) = Some Unanswered then Some Wrong
        else js_get (statuses_st c) (qIndex_st c))"
  using assms
  by (simp_all add: timer_frame_def timer_loop_def timer_effect_def Let_def js_get_js_set)

lemma run_frames_idle: "locked c \<or> \<not> running c \<Longrightarrow> run_frames ts c = (c, 0)"
  by (induction ts) (auto simp: timer_frame_idle)

text \<open>
  While a question runs, let the frame clock be sampled at the readings \<open>ts\<close>, at least one
  of them at or after \<open>startedAt + total * 1000\<close>, the guard not set.  Then the time-up
  branch runs exactly once, however many readings follow the deadline, and at the first
  reading that has reached it; afterwards the question is locked, its elapsed time in
  memory is the full budget, and its status in memory is \<open>wrong\<close> if it was \<open>unanswered\<close> and
  what it was otherwise.
\<close>

lemma time_up_once:
  assumes "running c" "\<not> locked c" "\<not> expiredRef c" "\<exists>t\<in>set ts. endsAt c \<le> t"
  shows "snd (run_frames ts c) = 1 \<and>
         locked (fst (run_frames ts c)) \<and> \<not> running (fst (run_frames ts c)) \<and>
         lockedFor (fst (run_frames ts c)) = Some (qIndex_st c) \<and>
         nowTs (fst (run_frames ts c)) = hd (filter (\<lambda>t. endsAt c \<le> t) ts) \<and>
         js_get (timesMs_st (fst (run_frames ts c))) (qIndex_st c) = Some (total_s c * 1000) \<and>
         js_get (statuses_st (fst (run_frames ts c))) (qIndex_st c) =
           (if js_get (statuses_st c) (qIndex_st c) = Some Unanswered then Some Wrong
            else js_get (statuses_st c) (qIndex_st c))"
  using assms
proof (induction ts arbitrary: c)
  case Nil
  then show ?case by simp
next
  case (Cons t ts)
  show ?case
  proof (cases "endsAt c \<le> t")
    case True
    with Cons.prems have ex: "expires t c" by (simp add: expires_def)
    note f = timer_frame_fires[OF Cons.prems(1) Cons.prems(2) ex]
    have idle: "run_frames ts (timer_frame t c) = (timer_frame t c, 0)"
      using f(1) by (simp add: run_frames_idle)
    show ?thesis
      using Cons.prems ex True f by (simp add: idle)
  next
    case False
    with Cons.prems have nex: "\<not> expires t c" by (simp add: expires_def)
    have step: "timer_frame t c = c\<lparr>nowTs := t\<rparr>"
      using Cons.prems nex by (simp add: timer_frame_early)
    have ex': "\<exists>u\<in>set ts. endsAt (c\<lparr>nowTs := t\<rparr>) \<le> u"
      using Cons.prems(4) False by (auto simp: endsAt_def)
    have IH: "snd (run_frames ts (c\<lparr>nowTs := t\<rparr>)) = 1 \<and>
         locked (fst (run_frames ts (c\<lparr>nowTs := t\<rparr>))) \<and>
         \<not> running (fst (run_frames ts (c\<lparr>nowTs := t\<rparr>))) \<and>
         lockedFor (fst (run_frames ts (c\<lparr>nowTs := t\<rparr>))) = Some (qIndex_st c) \<and>
         nowTs (fst (run_frames ts (c\<lparr>nowTs := t\<rparr>))) = hd (filter (\<lambda>t. endsAt c \<le> t) ts) \<and>
         js_get (timesMs_st (fst (run_frames ts (c\<lparr>nowTs := t\<rparr>)))) (qIndex_st c) =
           Some (total_s c * 1000) \<and>
         js_get (statuses_st (fst (run_frames ts (c\<lparr>nowTs := t\<rparr>)))) (qIndex_st c) =
           (if js_get (statuses_st c) (qIndex_st c) = Some Unanswered then Some Wrong
            else js_get (statuses_st c) (qIndex_st c))"
      using Cons.IH[of "c\<lparr>nowTs := t\<rparr>"] Cons.prems ex' by (simp add: endsAt_def)
    show ?thesis
      using IH nex False Cons.prems by (simp add: step split_def)
  qed
qed

text \<open>
  The guard is cleared for every question: by the initialising effect, by \<open>next\<close>, and by
  the timer effect that follows a time-up or an answer; no handler leaves it set.  So the
  question that \<open>next\<close> moves to times out exactly once as well, whatever the guard was
  before.
\<close>

lemma guard_cleared:
  "\<not> expiredRef (timer_effect c)"
  "\<not> expiredRef (question_reset now c)"
  "\<not> expiredRef (next_q now c)"
  "\<not> expiredRef (fresh_run now c)"
  "\<not> expiredRef (resume_run now r c)"
  by (simp_all add: timer_effect_def question_reset_def next_q_def fresh_run_def
      resume_run_def Let_def)

lemma guard_cleared_init: "questions c \<noteq> [] \<Longrightarrow> \<not> expiredRef (init_effect now c)"
  by (simp add: init_effect_def guard_cleared split: option.splits)

lemma guard_cleared_after_time_up:
  "running c \<Longrightarrow> \<not> locked c \<Longrightarrow> expires t c \<Longrightarrow> \<not> expiredRef (timer_frame t c)"
  by (simp add: timer_frame_def guard_cleared)

lemma guard_cleared_after_answer:
  "current_q c \<noteq> None \<Longrightarrow> \<not> locked c \<Longrightarrow> \<not> expiredRef (choose_opt idx now c)"
  by (auto simp: choose_opt_def Let_def guard_cleared)

lemma guard_stays_clear_frame: "\<not> expiredRef c \<Longrightarrow> \<not> expiredRef (timer_frame t c)"
  by (simp add: timer_frame_def timer_loop_def timer_effect_def Let_def)

lemma guard_stays_clear_frames:
  "\<not> expiredRef c \<Longrightarrow> \<not> expiredRef (fst (run_frames ts c))"
  by (induction ts arbitrary: c) (simp_all add: split_def Let_def guard_stays_clear_frame)

lemma guard_stays_clear:
  assumes "\<not> expiredRef c"
  shows "\<not> expiredRef (choose_opt idx now c)"
    "\<not> expiredRef (init_effect now c)"
    "\<not> expiredRef (finalizeOnLeave c)"
    "\<not> expiredRef (finish_effect outcome c)"
proof -
  show "\<not> expiredRef (choose_opt idx now c)"
    using assms by (auto simp: choose_opt_def Let_def guard_cleared split: option.splits)
  show "\<not> expiredRef (init_effect now c)"
  proof (cases "questions c = []")
    case True
    then show ?thesis using assms by (simp add: init_effect_def)
  next
    case False
    then show ?thesis by (rule guard_cleared_init)
  qed
  show "\<not> expiredRef (finalizeOnLeave c)"
    using assms by (simp add: finalizeOnLeave_def saveWeeklySnapshot_def setItem_def Let_def)
  show "\<not> expiredRef (finish_effect outcome c)"
    using assms
    by (simp add: finish_effect_def saveWeeklyAttempt_def split: insert_outcome.splits)
qed

lemma next_q_starts_question:
  assumes "int (qIndex_st c) < int (length (questions c)) - 1"
  shows "running (next_q now c)" "\<not> locked (next_q now c)"
    "qIndex_st (next_q now c) = qIndex_st c + 1"
    "endsAt (next_q now c) = now + total_s c * 1000"
  using assms
  by (simp_all add: next_q_def question_reset_def timer_effect_def endsAt_def Let_def)

lemma time_up_once_per_question:
  assumes "int (qIndex_st c) < int (length (questions c)) - 1"
    and "\<exists>t\<in>set ts. now + total_s c * 1000 \<le> t"
  shows "snd (run_frames ts (next_q now c)) = 1 \<and>
         locked (fst (run_frames ts (next_q now c))) \<and>
         lockedFor (fst (run_frames ts (next_q now c))) = Some (qIndex_st c + 1)"
proof -
  note n = next_q_starts_question[OF assms(1), of now]
  have "\<exists>t\<in>set ts. endsAt (next_q now c) \<le> t"
    using assms(2) by (simp only: n(4))
  from time_up_once[OF n(1) n(2) guard_cleared(3) this]
  show ?thesis by (simp add: n(3))
qed

lemma time_up_once_after_init:
  assumes "questions c \<noteq> []" "\<exists>t\<in>set ts. endsAt (init_effect now c) \<le> t"
  shows "snd (run_frames ts (init_effect now c)) = 1"
proof -
  have "running (init_effect now c)" "\<not> locked (init_effect now c)"
    using assms(1)
    by (simp_all add: init_effect_def fresh_run_fields resume_run_fields split: option.splits)
  from time_up_once[OF this guard_cleared_init[OF assms(1)] assms(2)]
  show ?thesis by simp
qed


text \<open>
  The same branch on the reloaded session, left once more on its last question: in memory
  the status \<open>penalized\<close> is kept, in the store it becomes \<open>wrong\<close>.
\<close>

lemma time_up_guard_in_memory_only:
  "js_get (statuses_st (finalizeOnLeave sample_reloaded)) 1 = Some Penalized \<and>
   stored_status (finalizeOnLeave sample_reloaded) 1 = Some Penalized \<and>
   js_get (statuses_st (timer_frame 32000 (finalizeOnLeave sample_reloaded))) 1
     = Some Penalized \<and>
   stored_status (timer_frame 32000 (finalizeOnLeave sample_reloaded)) 1 = Some Wrong"
  by (simp add: sample_reloaded_eq sample_defs run_defs)

lemma timer_frame_status_guard:
  "js_get (statuses_st c) (qIndex_st c) \<noteq> Some Unanswered \<Longrightarrow>
   statuses_st (timer_frame t c) = statuses_st c"
  by (simp add: timer_frame_def timer_loop_def timer_effect_def Let_def)

lemma choose_other_mem:
  "i \<noteq> qIndex_st c \<Longrightarrow>
   js_get (statuses_st (choose_opt idx now c)) i = js_get (statuses_st c) i \<and>
   js_get (timesMs_st (choose_opt idx now c)) i = js_get (timesMs_st c) i"
  by (simp add: choose_opt_def timer_effect_def Let_def js_get_js_set split: option.splits)

lemma timer_other_mem:
  "i \<noteq> qIndex_st c \<Longrightarrow>
   js_get (statuses_st (timer_frame t c)) i = js_get (statuses_st c) i \<and>
   js_get (timesMs_st (timer_frame t c)) i = js_get (timesMs_st c) i"
  by (simp add: timer_frame_def timer_loop_def timer_effect_def Let_def js_get_js_set)

lemma snapshot_other:
  assumes "readSessionSafe (storage c) \<noteq> None"
    and "o_timesMs opts = Some [(k, v)]"
    and "o_statuses opts = Some [(k, w)]"
    and "i \<noteq> k"
  shows "stored_status (saveWeeklySnapshot opts c) i = stored_status c i \<and>
         stored_time (saveWeeklySnapshot opts c) i = stored_time c i"
  using assms
  by (auto simp: saveWeeklySnapshot_def setItem_def merge_opts_def Let_def assign_all_def
      js_get_js_set readSessionSafe_def stored_status_def stored_time_def
      split: option.splits raw_item.splits)

lemma choose_other_stored:
  assumes "readSessionSafe (storage c) \<noteq> None" "i \<noteq> qIndex_st c"
  shows "stored_status (choose_opt idx now c) i = stored_status c i \<and>
         stored_time (choose_opt idx now c) i = stored_time c i"
proof (cases "current_q c")
  case None
  then show ?thesis by (simp add: choose_opt_def)
next
  case (Some q)
  show ?thesis
  proof (cases "locked c")
    case True
    then show ?thesis by (simp add: choose_locked)
  next
    case False
    let ?used = "min (total_s c * 1000) (now - startedAt c)"
    let ?o1 = "\<lparr>o_qIndex = None, o_timesMs = Some [(qIndex_st c, ?used)],
                o_statuses = Some [(qIndex_st c, Correct)], o_scoreDelta = Some 1\<rparr>"
    let ?o2 = "\<lparr>o_qIndex = None, o_timesMs = Some [(qIndex_st c, ?used)],
                o_statuses = Some [(qIndex_st c, Wrong)], o_scoreDelta = None\<rparr>"
    have st: "storage (choose_opt idx now c) =
        storage (if idx = correctIndex q then saveWeeklySnapshot ?o1 c
                 else saveWeeklySnapshot ?o2 c)"
      using Some False by (simp add: choose_opt_def timer_effect_def Let_def)
    show ?thesis
    proof (cases "idx = correctIndex q")
      case True
      with st have "storage (choose_opt idx now c) = storage (saveWeeklySnapshot ?o1 c)"
        by simp
      from stored_storage_cong[OF this, of i]
        snapshot_other[of c ?o1 "qIndex_st c" ?used Correct i] assms
      show ?thesis by simp
    next
      case F: False
      with st have "storage (choose_opt idx now c) = storage (saveWeeklySnapshot ?o2 c)"
        by simp
      from stored_storage_cong[OF this, of i]
        snapshot_other[of c ?o2 "qIndex_st c" ?used Wrong i] assms
      show ?thesis by simp
    qed
  qed
qed

lemma timer_other_stored:
  assumes "readSessionSafe (storage c) \<noteq> None" "i \<noteq> qIndex_st c"
  shows "stored_status (timer_frame t c) i = stored_status c i \<and>
         stored_time (timer_frame t c) i = stored_time c i"
proof (cases "running c \<and> \<not> locked c \<and> expires t c")
  case True
  let ?o = "no_opts\<lparr>o_timesMs := Some [(qIndex_st c, total_s c * 1000)],
                     o_statuses := Some [(qIndex_st c, Wrong)]\<rparr>"
  have "storage (timer_frame t c) = storage (saveWeeklySnapshot ?o c)"
    using True by (simp add: timer_frame_def timer_loop_def timer_effect_def Let_def)
  from stored_storage_cong[OF this, of i]
    snapshot_other[of c ?o "qIndex_st c" "total_s c * 1000" Wrong i] assms
  show ?thesis by simp
next
  case False
  then have "storage (timer_frame t c) = storage c"
    by (auto simp: timer_frame_def timer_loop_def)
  from stored_storage_cong[OF this, of i] show ?thesis .
qed

text \<open>
  C3, as the code has it.  The guard is the \<open>locked\<close> flag of the current question: while it
  is set, \<open>choose\<close> returns at once and no timer frame runs, so nothing changes, in memory or
  in the store.  A time-up never replaces an in-memory status other than \<open>unanswered\<close>.
  Questions other than the current one are not touched by \<open>choose\<close> or by a time-up, in
  memory or in a stored record.
\<close>

theorem C3_lock_guard:
  "(locked c \<longrightarrow> choose_opt idx now c = c \<and> timer_frame t c = c) \<and>
   (js_get (statuses_st c) (qIndex_st c) \<noteq> Some Unanswered \<longrightarrow>
      statuses_st (timer_frame t c) = statuses_st c) \<and>
   (i \<noteq> qIndex_st c \<longrightarrow>
      js_get (statuses_st (choose_opt idx now c)) i = js_get (statuses_st c) i \<and>
      js_get (timesMs_st (choose_opt idx now c)) i = js_get (timesMs_st c) i \<and>
      js_get (statuses_st (timer_frame t c)) i = js_get (statuses_st c) i \<and>
      js_get (timesMs_st (timer_frame t c)) i = js_get (timesMs_st c) i) \<and>
   (i \<noteq> qIndex_st c \<and> readSessionSafe (storage c) \<noteq> None \<longrightarrow>
      stored_status (choose_opt idx now c) i = stored_status c i \<and>
      stored_time (choose_opt idx now c) i = stored_time c i \<and>
      stored_status (timer_frame t c) i = stored_status c i \<and>
      stored_time (timer_frame t c) i = stored_time c i)"
  using choose_locked[of c idx now] timer_frame_idle[of c t] timer_frame_status_guard[of c t]
    choose_other_mem[of i c idx now] timer_other_mem[of i c t]
    choose_other_stored[of c i idx now] timer_other_stored[of c i t]
  by blast

theorem C3_lock_guard_witness:
  "locked (choose_opt 2 4000 sample_quiz) \<and>
   js_get (statuses_st (choose_opt 2 4000 sample_quiz))
     (qIndex_st (choose_opt 2 4000 sample_quiz)) \<noteq> Some Unanswered \<and>
   1 \<noteq> qIndex_st (choose_opt 2 4000 sample_quiz) \<and>
   readSessionSafe (storage (choose_opt 2 4000 sample_quiz)) \<noteq> None \<and>
   choose_opt 1 5000 (choose_opt 2 4000 sample_quiz) = choose_opt 2 4000 sample_quiz \<and>
   timer_frame 13000 (choose_opt 2 4000 sample_quiz) = choose_opt 2 4000 sample_quiz \<and>
   statuses_st (timer_frame 13000 (choose_opt 2 4000 sample_quiz))
     = statuses_st (choose_opt 2 4000 sample_quiz) \<and>
   stored_status (choose_opt 1 5000 (choose_opt 2 4000 sample_quiz)) 1
     = stored_status (choose_opt 2 4000 sample_quiz) 1"
proof -
  have a: "locked (choose_opt 2 4000 sample_quiz)"
    by (simp add: sample_defs run_defs)
  have b: "js_get (statuses_st (choose_opt 2 4000 sample_quiz))
     (qIndex_st (choose_opt 2 4000 sample_quiz)) \<noteq> Some Unanswered"
    by (simp add: sample_defs run_defs)
  have c: "1 \<noteq> qIndex_st (choose_opt 2 4000 sample_quiz)"
    by (simp add: sample_defs run_defs)
  have d: "readSessionSafe (storage (choose_opt 2 4000 sample_quiz)) \<noteq> None"
    by (simp add: sample_defs run_defs)
  show ?thesis
    using a b c d C3_lock_guard[of "choose_opt 2 4000 sample_quiz" 1 5000 13000 1]
    by simp
qed

text \<open>
  The claim as stated fails.  In the store: the page is hidden while the first question of
  the sample session runs, which stores \<open>penalized\<close> and the full 12000 ms for it; back on
  the page an answer (or the time-up) overwrites both.  In memory: the page is left on the
  last question, the reload resumes on that same question with its status \<open>penalized\<close>
  restored, and an answer replaces it.
\<close>

theorem C3_lock_invariant_counterexample:
  "stored_status (finalizeOnLeave sample_quiz) 0 = Some Penalized \<and>
   stored_time (finalizeOnLeave sample_quiz) 0 = Some 12000 \<and>
   stored_status (choose_opt 2 4000 (finalizeOnLeave sample_quiz)) 0 = Some Correct \<and>
   stored_time (choose_opt 2 4000 (finalizeOnLeave sample_quiz)) 0 = Some 3000 \<and>
   stored_status (timer_frame 13000 (finalizeOnLeave sample_quiz)) 0 = Some Wrong \<and>
   js_get (statuses_st sample_reloaded) 1 = Some Penalized \<and>
   js_get (timesMs_st sample_reloaded) 1 = Some 12000 \<and>
   js_get (statuses_st (choose_opt 0 21000 sample_reloaded)) 1 = Some Correct \<and>
   js_get (timesMs_st (choose_opt 0 21000 sample_reloaded)) 1 = Some 1000"
  by (simp add: sample_reloaded_eq sample_defs run_defs)

lemma leave_mid_eq:
  assumes "isWeekly c" "\<not> finished c" "running c" "\<not> locked c"
    "qIndex_st c < length (questions c)" "writable c"
  shows "finalizeOnLeave c =
     c\<lparr>storage := Parsed
        ((case readSessionSafe (storage c) of Some s \<Rightarrow> s | None \<Rightarrow> leave_default c)
          \<lparr>qIndex := min (qIndex_st c + 1) (length (questions c) - 1),
           statuses := js_set (statuses (case readSessionSafe (storage c) of
                                           Some s \<Rightarrow> s | None \<Rightarrow> leave_default c))
                         (qIndex_st c) Penalized,
           timesMs := js_set (timesMs (case readSessionSafe (storage c) of
                                         Some s \<Rightarrow> s | None \<Rightarrow> leave_default c))
                        (qIndex_st c) (total_s c * 1000)\<rparr>)\<rparr>"
proof -
  from assms(5) have "length (questions c) \<noteq> 0" by auto
  with assms show ?thesis
    by (simp add: finalizeOnLeave_def setItem_def Let_def)
qed

lemma leave_locked_eq:
  assumes "isWeekly c" "\<not> finished c" "locked c"
  shows "finalizeOnLeave c = saveWeeklySnapshot no_opts c"
  using assms by (simp add: finalizeOnLeave_def Let_def)

lemma merge_no_opts: "merge_opts no_opts s = s"
  by (simp add: merge_opts_def no_opts_def)

lemma plain_snapshot_stored:
  assumes "isWeekly c" "readSessionSafe (storage c) = Some s"
  shows "readSessionSafe (storage (saveWeeklySnapshot no_opts c)) = Some s"
proof (cases "writable c")
  case True
  with assms show ?thesis
    by (simp add: saveWeeklySnapshot_def setItem_def merge_no_opts readSessionSafe_def)
next
  case False
  with assms show ?thesis
    by (simp add: saveWeeklySnapshot_def setItem_def)
qed

lemma plain_snapshot_absent:
  assumes "isWeekly c" "readSessionSafe (storage c) = None" "writable c"
  shows "readSessionSafe (storage (saveWeeklySnapshot no_opts c)) = Some (snapshot_default c)"
  using assms
  by (simp add: saveWeeklySnapshot_def setItem_def merge_no_opts readSessionSafe_def)

lemma snapshot_only_storage:
  "saveWeeklySnapshot opts c = c\<lparr>storage := storage (saveWeeklySnapshot opts c)\<rparr>"
  by (simp add: saveWeeklySnapshot_def setItem_def)

lemma leave_finished: "finished c \<or> \<not> isWeekly c \<Longrightarrow> finalizeOnLeave c = c"
  by (auto simp: finalizeOnLeave_def)

text \<open>
  C4, as the code has it.  Leaving a weekly session that is not finished while the current
  question \<open>i\<close> runs unlocked stores (when the store takes the write) a record with
  \<open>statuses[i] = penalized\<close>, \<open>timesMs[i]\<close> the full budget and \<open>qIndex = min(i + 1, last)\<close>,
  and changes nothing in memory.  Leaving while the question is locked writes the plain
  snapshot only: a stored record is written back as it is, and with nothing stored the
  in-memory state is written.  Leaving a finished session writes nothing at all.
\<close>

theorem C4_leave_penalizes_running_question:
  "(isWeekly c \<and> \<not> finished c \<and> running c \<and> \<not> locked c \<and>
    qIndex_st c < length (questions c) \<and> writable c \<longrightarrow>
      (\<exists>s. readSessionSafe (storage (finalizeOnLeave c)) = Some s \<and>
           qIndex s = min (qIndex_st c + 1) (length (questions c) - 1)) \<and>
      stored_status (finalizeOnLeave c) (qIndex_st c) = Some Penalized \<and>
      stored_time (finalizeOnLeave c) (qIndex_st c) = Some (total_s c * 1000) \<and>
      finalizeOnLeave c = c\<lparr>storage := storage (finalizeOnLeave c)\<rparr>) \<and>
   (isWeekly c \<and> \<not> finished c \<and> locked c \<longrightarrow>
      finalizeOnLeave c = saveWeeklySnapshot no_opts c \<and>
      finalizeOnLeave c = c\<lparr>storage := storage (finalizeOnLeave c)\<rparr> \<and>
      (\<forall>s. readSessionSafe (storage c) = Some s \<longrightarrow>
           readSessionSafe (storage (finalizeOnLeave c)) = Some s) \<and>
      (readSessionSafe (storage c) = None \<and> writable c \<longrightarrow>
           readSessionSafe (storage (finalizeOnLeave c)) = Some (snapshot_default c))) \<and>
   (finished c \<longrightarrow> finalizeOnLeave c = c)"
proof (intro conjI impI)
  assume h: "isWeekly c \<and> \<not> finished c \<and> running c \<and> \<not> locked c \<and>
    qIndex_st c < length (questions c) \<and> writable c"
  then have eq: "finalizeOnLeave c = c\<lparr>storage := Parsed
        ((case readSessionSafe (storage c) of Some s \<Rightarrow> s | None \<Rightarrow> leave_default c)
          \<lparr>qIndex := min (qIndex_st c + 1) (length (questions c) - 1),
           statuses := js_set (statuses (case readSessionSafe (storage c) of
                                           Some s \<Rightarrow> s | None \<Rightarrow> leave_default c))
                         (qIndex_st c) Penalized,
           timesMs := js_set (timesMs (case readSessionSafe (storage c) of
                                         Some s \<Rightarrow> s | None \<Rightarrow> leave_default c))
                        (qIndex_st c) (total_s c * 1000)\<rparr>)\<rparr>"
    by (simp add: leave_mid_eq)
  show "\<exists>s. readSessionSafe (storage (finalizeOnLeave c)) = Some s \<and>
           qIndex s = min (qIndex_st c + 1) (length (questions c) - 1)"
    by (simp only: eq stored_Parsed) simp
  show "stored_status (finalizeOnLeave c) (qIndex_st c) = Some Penalized"
    by (simp only: eq stored_Parsed) (simp add: js_get_js_set)
  show "stored_time (finalizeOnLeave c) (qIndex_st c) = Some (total_s c * 1000)"
    by (simp only: eq stored_Parsed) (simp add: js_get_js_set)
  show "finalizeOnLeave c = c\<lparr>storage := storage (finalizeOnLeave c)\<rparr>"
    by (subst (2) eq, subst eq) simp
next
  assume h: "isWeekly c \<and> \<not> finished c \<and> locked c"
  then show eq: "finalizeOnLeave c = saveWeeklySnapshot no_opts c"
    by (simp add: leave_locked_eq)
  show "finalizeOnLeave c = c\<lparr>storage := storage (finalizeOnLeave c)\<rparr>"
    unfolding eq by (rule snapshot_only_storage)
  show "\<forall>s. readSessionSafe (storage c) = Some s \<longrightarrow>
           readSessionSafe (storage (finalizeOnLeave c)) = Some s"
    unfolding eq using h by (simp add: plain_snapshot_stored)
next
  assume h: "isWeekly c \<and> \<not> finished c \<and> locked c"
    and n: "readSessionSafe (storage c) = None \<and> writable c"
  then have eq: "finalizeOnLeave c = saveWeeklySnapshot no_opts c"
    by (simp add: leave_locked_eq)
  show "readSessionSafe (storage (finalizeOnLeave c)) = Some (snapshot_default c)"
    unfolding eq using h n by (simp add: plain_snapshot_absent)
next
  assume "finished c"
  then show "finalizeOnLeave c = c" by (simp add: leave_finished)
qed

theorem C4_leave_penalizes_running_question_witness:
  "(isWeekly sample_at_last \<and> \<not> finished sample_at_last \<and> running sample_at_last \<and>
    \<not> locked sample_at_last \<and> qIndex_st sample_at_last < length (questions sample_at_last) \<and>
    writable sample_at_last) \<and>
   stored_status (finalizeOnLeave sample_at_last) 1 = Some Penalized \<and>
   stored_time (finalizeOnLeave sample_at_last) 1 = Some 12000 \<and>
   (\<exists>s. readSessionSafe (storage (finalizeOnLeave sample_at_last)) = Some s \<and> qIndex s = 1) \<and>
   (isWeekly (choose_opt 2 4000 sample_quiz) \<and> \<not> finished (choose_opt 2 4000 sample_quiz) \<and>
    locked (choose_opt 2 4000 sample_quiz)) \<and>
   finalizeOnLeave (choose_opt 2 4000 sample_quiz)
     = saveWeeklySnapshot no_opts (choose_opt 2 4000 sample_quiz) \<and>
   finished sample_finished \<and> finalizeOnLeave sample_finished = sample_finished"
proof -
  have m: "isWeekly sample_at_last \<and> \<not> finished sample_at_last \<and> running sample_at_last \<and>
    \<not> locked sample_at_last \<and> qIndex_st sample_at_last < length (questions sample_at_last) \<and>
    writable sample_at_last"
    by (simp add: sample_defs run_defs)
  have v: "qIndex_st sample_at_last = 1" "total_s sample_at_last = 12"
    "length (questions sample_at_last) = 2"
    by (simp_all add: sample_defs run_defs)
  have l: "isWeekly (choose_opt 2 4000 sample_quiz) \<and> \<not> finished (choose_opt 2 4000 sample_quiz) \<and>
    locked (choose_opt 2 4000 sample_quiz)"
    by (simp add: sample_defs run_defs)
  have f: "finished sample_finished"
    by (simp add: sample_defs run_defs)
  show ?thesis
    using m l f C4_leave_penalizes_running_question[of sample_at_last]
      C4_leave_penalizes_running_question[of "choose_opt 2 4000 sample_quiz"]
      C4_leave_penalizes_running_question[of sample_finished]
    by (simp add: v)
qed

text \<open>
  The claim as stated fails for a finished session: the record was removed when the session
  finished, and leaving writes nothing, whereas the plain snapshot would store a record
  again.
\<close>

theorem C4_finished_snapshot_counterexample:
  "isWeekly sample_finished \<and> finished sample_finished \<and>
   storage (finalizeOnLeave sample_finished) = NoItem \<and>
   storage (saveWeeklySnapshot no_opts sample_finished) \<noteq> NoItem \<and>
   storage (finalizeOnLeave sample_finished)
     \<noteq> storage (saveWeeklySnapshot no_opts sample_finished)"
  by (simp add: sample_defs run_defs)

subsection \<open>Stored values that are not sessions\<close>

lemma readSessionSafe_not_parsed: "(\<forall>v. raw \<noteq> Parsed v) \<Longrightarrow> readSessionSafe raw = None"
  by (cases raw) (simp_all add: readSessionSafe_def)

lemma load_resume_json_not_parsed:
  "(\<forall>v. raw \<noteq> Parsed v) \<Longrightarrow> load_resume_json d w raw = (None, False)"
  by (cases raw) (simp_all add: load_resume_json_def)

lemma load_resume_json_other_day:
  assumes "\<forall>v. raw = Parsed v \<longrightarrow>
             js_prop (Some v) (lit ''date'') \<noteq> Inr (Some (JStr d)) \<or>
             js_prop (Some v) (lit ''weekId'') \<noteq> Inr (Some (JStr w))"
  shows "fst (load_resume_json d w raw) = None"
proof (cases raw)
  case (Parsed v)
  with assms show ?thesis
    by (auto simp: load_resume_json_def split: sum.splits)
qed (simp_all add: load_resume_json_def)

lemma init_branch_None: "init_branch weekly None qlen = Inr Fresh"
  by (simp add: init_branch_def)

lemma load_resume_unreadable:
  assumes "isWeekly c" "bank c = Some b" "\<forall>s. storage c \<noteq> Parsed s"
  shows "load_resume c = c\<lparr>resume := None\<rparr>"
  using assms by (simp add: load_resume_def readSessionSafe_not_parsed)

text \<open>
  With nothing readable in the store the mount is the initialising effect on what the
  loading effect leaves: \<open>resume\<close> stays empty and nothing runs twice.
\<close>

lemma mount_unreadable:
  assumes "isWeekly c" "bank c = Some b" "resume c = None" "\<forall>s. storage c \<noteq> Parsed s"
  shows "mount now now' c = init_effect now (load_resume c)"
proof -
  have n: "readSessionSafe (storage c) = None"
    using assms(4) by (rule readSessionSafe_not_parsed)
  have "load_resume c = c"
    using assms n by (simp add: load_resume_absent resume_same)
  then show ?thesis
    using assms n by (simp add: mount_absent)
qed

text \<open>
  C8, as the code has it.  A stored item that is missing, empty, unreadable or rejected by
  \<open>JSON.parse\<close> is read as no record, without an exception; so is, in the loading effect,
  any parsed value whose \<open>date\<close> or \<open>weekId\<close> is not today's (a value that is not an object
  among them).  In each of these cases \<open>resume\<close> is empty and the initialising effect takes
  the fresh branch.
\<close>

theorem C8_unparseable_read_as_absent:
  "((\<forall>v. raw \<noteq> Parsed v) \<longrightarrow>
      readSessionSafe raw = None \<and> load_resume_json d w raw = (None, False)) \<and>
   ((\<forall>v. raw = Parsed v \<longrightarrow>
          js_prop (Some v) (lit ''date'') \<noteq> Inr (Some (JStr d)) \<or>
          js_prop (Some v) (lit ''weekId'') \<noteq> Inr (Some (JStr w))) \<longrightarrow>
      fst (load_resume_json d w raw) = None \<and>
      init_branch weekly (fst (load_resume_json d w raw)) qlen = Inr Fresh) \<and>
   (isWeekly c \<and> bank c = Some b \<and> (\<forall>s. storage c \<noteq> Parsed s) \<and>
    questions (load_resume c) \<noteq> [] \<longrightarrow>
      resume (load_resume c) = None \<and>
      init_effect now (load_resume c) = fresh_run now (load_resume c))"
proof (intro conjI impI)
  assume "\<forall>v. raw \<noteq> Parsed v"
  then show "readSessionSafe raw = None" and "load_resume_json d w raw = (None, False)"
    by (simp_all add: readSessionSafe_not_parsed load_resume_json_not_parsed)
next
  assume "\<forall>v. raw = Parsed v \<longrightarrow>
          js_prop (Some v) (lit ''date'') \<noteq> Inr (Some (JStr d)) \<or>
          js_prop (Some v) (lit ''weekId'') \<noteq> Inr (Some (JStr w))"
  then show n: "fst (load_resume_json d w raw) = None"
    by (rule load_resume_json_other_day)
  show "init_branch weekly (fst (load_resume_json d w raw)) qlen = Inr Fresh"
    by (simp only: n init_branch_None)
next
  assume h: "isWeekly c \<and> bank c = Some b \<and> (\<forall>s. storage c \<noteq> Parsed s) \<and>
    questions (load_resume c) \<noteq> []"
  then have eq: "load_resume c = c\<lparr>resume := None\<rparr>"
    by (simp add: load_resume_unreadable)
  then show r: "resume (load_resume c) = None" by simp
  from h r show "init_effect now (load_resume c) = fresh_run now (load_resume c)"
    by (simp add: init_fresh)
qed

lemma sample_bad_store_questions:
  "length (questions (load_resume (sample_mount\<lparr>storage := BadJson\<rparr>))) = 15"
proof -
  have "load_resume (sample_mount\<lparr>storage := BadJson\<rparr>)
          = sample_mount\<lparr>storage := BadJson, resume := None\<rparr>"
    by (simp add: load_resume_def sample_mount_fields readSessionSafe_def)
  then show ?thesis
    by (simp add: questions_def sample_mount_fields weekly_pick_15_length
        sample_bank15_hard sample_bank15_medium)
qed

theorem C8_unparseable_read_as_absent_witness:
  "readSessionSafe (BadJson :: json raw_item) = None \<and>
   load_resume_json (lit ''2025-03-10'') (lit ''2025-W11'') BadJson = (None, False) \<and>
   fst (load_resume_json (lit ''2025-03-10'') (lit ''2025-W11'') (Parsed (JNum 42))) = None \<and>
   init_branch True
     (fst (load_resume_json (lit ''2025-03-10'') (lit ''2025-W11'') (Parsed (JNum 42)))) 15
     = Inr Fresh \<and>
   isWeekly (sample_mount\<lparr>storage := BadJson\<rparr>) \<and>
   bank (sample_mount\<lparr>storage := BadJson\<rparr>) = Some sample_bank15 \<and>
   storage (sample_mount\<lparr>storage := BadJson\<rparr>) = BadJson \<and>
   questions (load_resume (sample_mount\<lparr>storage := BadJson\<rparr>)) \<noteq> [] \<and>
   resume (load_resume (sample_mount\<lparr>storage := BadJson\<rparr>)) = None \<and>
   init_effect 20000 (load_resume (sample_mount\<lparr>storage := BadJson\<rparr>))
     = fresh_run 20000 (load_resume (sample_mount\<lparr>storage := BadJson\<rparr>))"
proof -
  have a: "\<forall>v. (BadJson :: json raw_item) \<noteq> Parsed v" by simp
  have b: "\<forall>v. Parsed (JNum 42) = Parsed v \<longrightarrow>
        js_prop (Some v) (lit ''date'') \<noteq> Inr (Some (JStr (lit ''2025-03-10''))) \<or>
        js_prop (Some v) (lit ''weekId'') \<noteq> Inr (Some (JStr (lit ''2025-W11'')))"
    by (simp add: js_prop_def)
  have c: "isWeekly (sample_mount\<lparr>storage := BadJson\<rparr>) \<and>
    bank (sample_mount\<lparr>storage := BadJson\<rparr>) = Some sample_bank15 \<and>
    (\<forall>s. storage (sample_mount\<lparr>storage := BadJson\<rparr>) \<noteq> Parsed s) \<and>
    questions (load_resume (sample_mount\<lparr>storage := BadJson\<rparr>)) \<noteq> []"
    using sample_bad_store_questions by (auto simp: sample_mount_fields)
  have d: "storage (sample_mount\<lparr>storage := BadJson\<rparr>) = BadJson" by simp
  show ?thesis
    using a b c d
      C8_unparseable_read_as_absent[of BadJson "lit ''2025-03-10''" "lit ''2025-W11''"
        True 15 "sample_mount\<lparr>storage := BadJson\<rparr>" sample_bank15 20000]
      C8_unparseable_read_as_absent[of "Parsed (JNum 42)" "lit ''2025-03-10''"
        "lit ''2025-W11''" True 15 "sample_mount\<lparr>storage := BadJson\<rparr>" sample_bank15 20000]
    by blast
qed

text \<open>
  The claim as stated fails for a value of another shape.  The object with today's \<open>date\<close>
  and \<open>weekId\<close> and no other field is not a \<open>WeeklySession\<close>; \<open>readSessionSafe\<close> returns it,
  the loading effect keeps it as \<open>resume\<close>, and the initialising effect throws on
  \<open>resume.qIds.length\<close>.
\<close>

theorem C8_schema_mismatch_counterexample:
  "\<not> is_WeeklySession sample_partial_json \<and>
   readSessionSafe (Parsed sample_partial_json) = Some sample_partial_json \<and>
   load_resume_json (lit ''2025-03-10'') (lit ''2025-W11'') (Parsed sample_partial_json)
     = (Some sample_partial_json, False) \<and>
   init_branch True (Some sample_partial_json) 15 = Inl TypeError"
  by (simp add: sample_partial_json_def is_WeeklySession_def is_string_def is_number_def
      is_array_of_def readSessionSafe_def load_resume_json_def js_prop_def init_branch_def
      js_truthy_def lit_def)

subsection \<open>Saving the attempt\<close>

lemma save_duplicate:
  assumes "isWeekly c" "\<not> saving c" "\<not> saved c" "is_duplicate code msg"
  shows "saved (saveWeeklyAttempt (Rejected code msg) c)"
    "saveError (saveWeeklyAttempt (Rejected code msg) c) = None"
    "shows_saved (saveWeeklyAttempt (Rejected code msg) c)"
    "\<not> shows_retry (saveWeeklyAttempt (Rejected code msg) c)"
  using assms by (simp_all add: saveWeeklyAttempt_def shows_saved_def shows_retry_def truthy_def)

lemma unique_violation_is_duplicate: "is_duplicate (Some (lit ''23505'')) msg"
  by (simp add: is_duplicate_def)

lemma save_other_failure:
  assumes "isWeekly c" "\<not> saving c" "\<not> saved c" "\<not> is_duplicate code msg" "msg \<noteq> Some []"
  shows "\<not> saved (saveWeeklyAttempt (Rejected code msg) c)"
    "shows_retry (saveWeeklyAttempt (Rejected code msg) c)"
  using assms
  by (auto simp: saveWeeklyAttempt_def shows_retry_def truthy_def message_or_default_def
      lit_def split: option.splits)

lemma save_thrown:
  assumes "isWeekly c" "\<not> saving c" "\<not> saved c" "msg \<noteq> Some []"
  shows "\<not> saved (saveWeeklyAttempt (Thrown msg) c)"
    "shows_retry (saveWeeklyAttempt (Thrown msg) c)"
  using assms
  by (auto simp: saveWeeklyAttempt_def shows_retry_def truthy_def message_or_default_def
      lit_def split: option.splits)

text \<open>
  C9 at a failing input.  The sample session has finished and the insert comes back with an
  error that is not a duplicate and whose message is the empty string.  The attempt is not
  saved, the stored error text is the empty string, and the finish screen shows neither
  "Saved" nor the message with the Retry button.
\<close>

theorem C9_empty_message_not_surfaced:
  "isWeekly sample_done \<and> finished sample_done \<and>
   \<not> is_duplicate None (Some []) \<and>
   \<not> saved (finish_effect (Rejected None (Some [])) sample_done) \<and>
   \<not> saving (finish_effect (Rejected None (Some [])) sample_done) \<and>
   saveError (finish_effect (Rejected None (Some [])) sample_done) = Some [] \<and>
   \<not> shows_saved (finish_effect (Rejected None (Some [])) sample_done) \<and>
   \<not> shows_retry (finish_effect (Rejected None (Some [])) sample_done)"
  by (simp add: sample_done_def sample_defs run_defs is_duplicate_def matches_at_def
      message_or_default_def shows_saved_def shows_retry_def truthy_def)

subsection \<open>Parameter parsing\<close>

lemma n_of_at_least_1: "p \<noteq> Some NaN \<Longrightarrow> js_le (Fin 1) (n_of weekly p)"
  by (cases p; cases "the p")
     (auto simp: n_of_def Math_max_def js_le_def split: js_number.splits)

lemma total_of_clamped:
  "p \<noteq> Some NaN \<Longrightarrow> js_le (Fin 5) (total_of weekly p) \<and> js_le (total_of weekly p) (Fin 120)"
  by (cases p; cases "the p")
     (auto simp: total_of_def Math_max_def Math_min_def js_le_def split: js_number.splits)

text \<open>
  C10 at a failing input.  For a parameter whose text is not a number, \<open>Number\<close> gives
  \<open>NaN\<close>, and \<open>Math.max\<close> and \<open>Math.min\<close> pass it on: the question count and the time budget
  are \<open>NaN\<close>, neither at least 1 nor within 5 and 120.
\<close>

theorem C10_nan_passes_the_clamps:
  "n_of weekly (Some NaN) = NaN \<and> \<not> js_le (Fin 1) (n_of weekly (Some NaN)) \<and>
   total_of weekly (Some NaN) = NaN \<and>
   \<not> js_le (Fin 5) (total_of weekly (Some NaN)) \<and>
   \<not> js_le (total_of weekly (Some NaN)) (Fin 120)"
  by (simp add: n_of_def total_of_def Math_max_def Math_min_def js_le_def)

end
